theory Spec2Isabelle
  imports Complex_Main "HOL-Library.AList"
begin

section \<open>Envelope model (types/message.ts)\<close>

text \<open>
  The interfaces of \<^verbatim>\<open>types/message.ts\<close> as records. Field names carry a prefix
  because several interfaces share \<^verbatim>\<open>msg_id\<close>, \<^verbatim>\<open>from\<close>, \<^verbatim>\<open>to\<close> and \<^verbatim>\<open>timestamp\<close>.
  An optional field is an \<open>option\<close>.
\<close>

record HopInfo =
  hop_nodeId :: string
  hop_timestamp :: string

record MessageMeta =
  meta_name :: "string option"
  meta_location :: "string option"
  meta_contact :: "string option"
  meta_imageRef :: "string option"

datatype MessageType = broadcast | e2e

subsection \<open>JavaScript numbers\<close>

text \<open>
  \<^verbatim>\<open>ttl: number\<close> is read from the wire by \<^verbatim>\<open>JSON.parse\<close> and never validated, so
  it is any value a JSON number literal parses to: a finite double, or an infinity for a
  literal beyond the double range. \<open>Num x\<close> is the double of value \<open>x\<close>; zero has
  one sign here, which neither \<^verbatim>\<open>> 0\<close> nor \<^verbatim>\<open>- 1\<close> can tell apart. NaN does not
  arise: no JSON literal parses to it and subtracting one never produces it. A ttl that is
  no number at all is outside the model, as it is outside the interface. An envelope in a
  trace is the object as handed to \<^verbatim>\<open>JSON.stringify\<close>.

  \<open>toDouble\<close> rounds a real to the nearest double, ties to the even significand:
  \<open>binade x = Some k\<close> says that the spacing of doubles around \<open>x\<close> is
  \<open>2 ^ k / 2 ^ 1074\<close> (\<open>k = 0\<close> covers the subnormals), and a result of magnitude
  \<open>2 ^ 1024\<close> or more is an infinity. \<open>js_minus_one\<close> is \<^verbatim>\<open>x - 1\<close> and
  \<open>js_positive\<close> is \<^verbatim>\<open>x > 0\<close>.
\<close>

datatype JsNumber = Num real | PosInfinity | NegInfinity

definition roundHalfEven :: "real \<Rightarrow> int" where
  "roundHalfEven y =
     (let f = \<lfloor>y\<rfloor>; d = y - of_int f
      in if d < 1 / 2 then f else if 1 / 2 < d then f + 1 else if even f then f else f + 1)"

definition binade :: "real \<Rightarrow> nat option" where
  "binade x = List.find (\<lambda>k. \<bar>x\<bar> * 2 ^ 1074 < 2 ^ (k + 53)) [0..<2046]"

definition toDouble :: "real \<Rightarrow> JsNumber" where
  "toDouble x =
     (case binade x of
        None \<Rightarrow> if 0 < x then PosInfinity else NegInfinity
      | Some k \<Rightarrow>
         (let r = of_int (roundHalfEven (x * 2 ^ 1074 / 2 ^ k)) * 2 ^ k / 2 ^ 1074
          in if 2 ^ 1024 \<le> \<bar>r\<bar> then (if 0 < x then PosInfinity else NegInfinity)
             else Num r))"

definition js_minus_one :: "JsNumber \<Rightarrow> JsNumber" where
  "js_minus_one v =
     (case v of Num x \<Rightarrow> toDouble (x - 1) | PosInfinity \<Rightarrow> PosInfinity
      | NegInfinity \<Rightarrow> NegInfinity)"

definition js_positive :: "JsNumber \<Rightarrow> bool" where
  "js_positive v = (case v of Num x \<Rightarrow> 0 < x | PosInfinity \<Rightarrow> True | NegInfinity \<Rightarrow> False)"


record MessageEnvelope =
  msg_id :: string
  msg_type :: MessageType
  msg_from :: string
  msg_to :: string
  msg_timestamp :: string
  msg_ttl :: JsNumber
  msg_hops :: "HopInfo list"
  msg_payload :: string
  msg_meta :: "MessageMeta option"

record KeyEnvelope =
  key_msg_id :: string
  key_from :: string
  key_to :: string
  key_wrapped_key :: string
  key_algorithm :: string

record DecryptedMessage =
  dec_msg_id :: string
  dec_content :: string
  dec_image :: "string option"
  dec_timestamp :: string
  dec_from :: string
  dec_meta :: "MessageMeta option"
  dec_messagePath :: "HopInfo list"
  dec_keyPath :: "HopInfo list"

section \<open>Deduplication store (MessageStore.isDuplicate, MessageStore.markAsProcessed)\<close>

text \<open>
  The store is the JSON array under \<^verbatim>\<open>nine_dedupe\<close>: a list of ids, oldest first.
  \<^verbatim>\<open>push\<close> appends at the end and \<^verbatim>\<open>shift\<close> removes the head. Writes to the
  browser storage are taken to succeed.
\<close>

definition isDuplicate :: "string list \<Rightarrow> string \<Rightarrow> bool" where
  "isDuplicate store msgId = (msgId \<in> set store)"

definition markAsProcessed :: "string list \<Rightarrow> string \<Rightarrow> string list" where
  "markAsProcessed store msgId =
     (if msgId \<notin> set store then
        (let pushed = store @ [msgId] in
         if length pushed > 1000 then tl pushed else pushed)
      else store)"

text \<open>A run of marks, starting from the store as loaded.\<close>

definition markAll :: "string list \<Rightarrow> string list \<Rightarrow> string list" where
  "markAll store ids = foldl markAsProcessed store ids"

section \<open>Collaborators of the node relay\<close>

text \<open>
  The primitives of \<^verbatim>\<open>utils/crypto.ts\<close> call libsodium, which is no part of this
  repository: they are parameters. \<open>None\<close> is a thrown exception (a failed open, a
  malformed key). Session keys and byte strings are \<open>string\<close>s.
\<close>

record Crypto =
  encryptMessage :: "string \<Rightarrow> string \<Rightarrow> string option"
  decryptMessage :: "string \<Rightarrow> string \<Rightarrow> string option"
  wrapSessionKey :: "string \<Rightarrow> string \<Rightarrow> string option"
  unwrapSessionKey :: "string \<Rightarrow> string \<Rightarrow> string option"

text \<open>
  A registered callback is either the listener that \<^verbatim>\<open>E2EService.setupMessageListeners\<close>
  installs, or an observer that does not write to the store (the refresh callbacks of
  \<^verbatim>\<open>App.tsx\<close>).
\<close>

datatype Handler = E2EListener | Observer

text \<open>
  Frames the relay writes to the hub (\<^verbatim>\<open>sendToServer\<close> and the register frame of
  \<^verbatim>\<open>onopen\<close>), and frames it reads from the hub (\<^verbatim>\<open>ws.onmessage\<close>). A
  \<^verbatim>\<open>mesh_message\<close> with \<^verbatim>\<open>envelopeType === 'key'\<close> carries a KeyEnvelope, any other
  \<^verbatim>\<open>mesh_message\<close> a MessageEnvelope.
\<close>

datatype ClientFrame =
    RegisterFrame string
  | MessageFrame MessageEnvelope
  | KeyFrame KeyEnvelope

datatype ServerFrame =
    peer_list "string list"
  | peer_connected string
  | peer_disconnected string
  | mesh_message MessageEnvelope
  | mesh_message_key KeyEnvelope
  | other_frame

text \<open>
  One node: the collections of \<^verbatim>\<open>MessageStore\<close> and \<^verbatim>\<open>AdminKeyStore\<close> (browser
  storage), the fields of the \<^verbatim>\<open>MeshNetwork\<close> singleton, and what the node does to the
  outside, kept as traces: the frames written to the hub socket, the timers set, and every
  invocation of a registered callback (the callback's index and its argument). The peer
  set is a list without repetition, in insertion order. Peer observers only read the
  relay, so their two registries are counts. The node has one hub socket, \<^verbatim>\<open>this.ws\<close>,
  and \<open>wsOpen\<close> says whether it is there and open.
\<close>

record Node =
  nodeId :: string
  broadcasts :: "MessageEnvelope list"
  messageMesh :: "MessageEnvelope list"
  keyMesh :: "KeyEnvelope list"
  decrypted :: "DecryptedMessage list"
  dedupe :: "string list"
  adminMode :: bool
  adminPrivateKey :: "string option"
  adminPublicKey :: "string option"
  peers :: "string list"
  messageHandlers :: "Handler list"
  keyHandlers :: "Handler list"
  peerDiscoveredHandlers :: nat
  peerLostHandlers :: nat
  wsOpen :: bool
  reconnectAttempts :: nat
  sent :: "ClientFrame list"
  timers :: "nat list"
  messageCalls :: "(nat \<times> MessageEnvelope) list"
  keyCalls :: "(nat \<times> KeyEnvelope) list"
  peerDiscoveredCalls :: "(nat \<times> string) list"
  peerLostCalls :: "(nat \<times> string) list"

definition maxReconnectAttempts :: nat where
  "maxReconnectAttempts = 10"

definition reconnectDelay :: nat where
  "reconnectDelay = 3000"

definition DEFAULT_TTL :: JsNumber where
  "DEFAULT_TTL = Num 8"

text \<open>JavaScript truthiness of an optional string: \<^verbatim>\<open>null\<close>, \<^verbatim>\<open>undefined\<close> and \<^verbatim>\<open>""\<close> are falsy.\<close>

definition truthy :: "string option \<Rightarrow> string option" where
  "truthy v = (case v of None \<Rightarrow> None | Some x \<Rightarrow> if x = [] then None else Some x)"

definition js_or :: "string option \<Rightarrow> string option \<Rightarrow> string option" where
  "js_or a b = (case truthy a of Some x \<Rightarrow> Some x | None \<Rightarrow> truthy b)"

subsection \<open>MessageStore\<close>

definition saveBroadcast :: "MessageEnvelope \<Rightarrow> Node \<Rightarrow> Node" where
  "saveBroadcast message s = s\<lparr>broadcasts := broadcasts s @ [message]\<rparr>"

definition saveMessageEnvelope :: "MessageEnvelope \<Rightarrow> Node \<Rightarrow> Node" where
  "saveMessageEnvelope message s = s\<lparr>messageMesh := messageMesh s @ [message]\<rparr>"

definition saveKeyEnvelope :: "KeyEnvelope \<Rightarrow> Node \<Rightarrow> Node" where
  "saveKeyEnvelope key s = s\<lparr>keyMesh := keyMesh s @ [key]\<rparr>"

definition saveDecryptedMessage :: "DecryptedMessage \<Rightarrow> Node \<Rightarrow> Node" where
  "saveDecryptedMessage message s = s\<lparr>decrypted := decrypted s @ [message]\<rparr>"

definition getMessageEnvelopeById :: "Node \<Rightarrow> string \<Rightarrow> MessageEnvelope option" where
  "getMessageEnvelopeById s msgId = List.find (\<lambda>msg. msg_id msg = msgId) (messageMesh s)"

definition getKeyEnvelopeById :: "Node \<Rightarrow> string \<Rightarrow> KeyEnvelope option" where
  "getKeyEnvelopeById s msgId = List.find (\<lambda>key. key_msg_id key = msgId) (keyMesh s)"

subsection \<open>MessageFactory and NodeIdGenerator\<close>

text \<open>
  \<^verbatim>\<open>uuidv4()\<close> and \<^verbatim>\<open>new Date().toISOString()\<close> are inputs: \<open>uuid\<close> and \<open>now\<close>.
\<close>

definition getPseudoId :: "Node \<Rightarrow> string" where
  "getPseudoId s = ''user_'' @ take 8 (nodeId s)"

definition createBroadcastMessage ::
  "string \<Rightarrow> string \<Rightarrow> string \<Rightarrow> MessageMeta option \<Rightarrow> Node \<Rightarrow> MessageEnvelope" where
  "createBroadcastMessage uuid now content meta s =
     \<lparr>msg_id = uuid, msg_type = broadcast, msg_from = getPseudoId s, msg_to = ''all'',
      msg_timestamp = now, msg_ttl = DEFAULT_TTL,
      msg_hops = [\<lparr>hop_nodeId = nodeId s, hop_timestamp = now\<rparr>],
      msg_payload = content, msg_meta = meta\<rparr>"

definition createE2EMessageEnvelope ::
  "string \<Rightarrow> string \<Rightarrow> string \<Rightarrow> MessageMeta option \<Rightarrow> Node \<Rightarrow> MessageEnvelope" where
  "createE2EMessageEnvelope uuid now encryptedPayload meta s =
     \<lparr>msg_id = uuid, msg_type = e2e, msg_from = getPseudoId s, msg_to = ''admin'',
      msg_timestamp = now, msg_ttl = DEFAULT_TTL,
      msg_hops = [\<lparr>hop_nodeId = nodeId s, hop_timestamp = now\<rparr>],
      msg_payload = encryptedPayload, msg_meta = meta\<rparr>"

definition createKeyEnvelope :: "string \<Rightarrow> string \<Rightarrow> Node \<Rightarrow> KeyEnvelope" where
  "createKeyEnvelope msgId wrappedKey s =
     \<lparr>key_msg_id = msgId, key_from = getPseudoId s, key_to = ''admin'',
      key_wrapped_key = wrappedKey, key_algorithm = ''x25519+aes-256-gcm''\<rparr>"

definition addHop :: "string \<Rightarrow> string \<Rightarrow> MessageEnvelope \<Rightarrow> MessageEnvelope" where
  "addHop self now envelope =
     envelope\<lparr>msg_ttl := js_minus_one (msg_ttl envelope),
              msg_hops := msg_hops envelope @ [\<lparr>hop_nodeId = self, hop_timestamp = now\<rparr>]\<rparr>"

subsection \<open>E2EService: the admin join\<close>

text \<open>
  \<^verbatim>\<open>tryDecryptMessage\<close> is \<^verbatim>\<open>async\<close>: it reads both logs before its first
  \<^verbatim>\<open>await\<close> and appends to the decrypted log after the last. With libsodium loaded
  the awaited promises are already resolved, so the continuation runs before the next
  frame or the next user action is handled; the model runs a call in one step. Two calls
  started in one turn each read the logs first and each append later, which gives the
  same decrypted log as running them one after the other. Any exception inside the
  \<^verbatim>\<open>try\<close> is caught and logged, leaving the store as it was.
\<close>

definition tryDecryptMessage ::
  "Crypto \<Rightarrow> string \<Rightarrow> MessageEnvelope option \<Rightarrow> KeyEnvelope option \<Rightarrow> Node \<Rightarrow> Node" where
  "tryDecryptMessage C now messageEnvelope keyEnvelope s =
     (if messageEnvelope = None \<and> keyEnvelope = None then s
      else
        (case js_or (map_option msg_id messageEnvelope) (map_option key_msg_id keyEnvelope) of
           None \<Rightarrow> s
         | Some msgId \<Rightarrow>
            (case getMessageEnvelopeById s msgId of
               None \<Rightarrow> s
             | Some storedMessage \<Rightarrow>
                (case getKeyEnvelopeById s msgId of
                   None \<Rightarrow> s
                 | Some storedKey \<Rightarrow>
                    if msg_type storedMessage \<noteq> e2e \<or> key_to storedKey \<noteq> ''admin'' then s
                    else
                      (case truthy (adminPrivateKey s) of
                         None \<Rightarrow> s
                       | Some adminPriv \<Rightarrow>
                          (case unwrapSessionKey C (key_wrapped_key storedKey) adminPriv of
                             None \<Rightarrow> s
                           | Some sessionKey \<Rightarrow>
                              (case decryptMessage C (msg_payload storedMessage) sessionKey of
                                 None \<Rightarrow> s
                               | Some decryptedContent \<Rightarrow>
                                  saveDecryptedMessage
                                    \<lparr>dec_msg_id = msgId, dec_content = decryptedContent,
                                     dec_image = None,
                                     dec_timestamp = msg_timestamp storedMessage,
                                     dec_from = msg_from storedMessage,
                                     dec_meta = msg_meta storedMessage,
                                     dec_messagePath = msg_hops storedMessage,
                                     dec_keyPath =
                                       [\<lparr>hop_nodeId = key_from storedKey,
                                         hop_timestamp = now\<rparr>]\<rparr> s)))))))"

text \<open>The two callbacks of \<^verbatim>\<open>setupMessageListeners\<close>.\<close>

definition e2eMessageListener :: "Crypto \<Rightarrow> string \<Rightarrow> MessageEnvelope \<Rightarrow> Node \<Rightarrow> Node" where
  "e2eMessageListener C now message s =
     (if msg_type message = e2e \<and> adminMode s
      then tryDecryptMessage C now (Some message) None s else s)"

definition e2eKeyListener :: "Crypto \<Rightarrow> string \<Rightarrow> KeyEnvelope \<Rightarrow> Node \<Rightarrow> Node" where
  "e2eKeyListener C now key s =
     (if adminMode s then tryDecryptMessage C now None (Some key) s else s)"

text \<open>\<^verbatim>\<open>new E2EService()\<close> registers one message callback and one key callback.\<close>

definition newE2EService :: "Node \<Rightarrow> Node" where
  "newE2EService s =
     s\<lparr>messageHandlers := messageHandlers s @ [E2EListener],
       keyHandlers := keyHandlers s @ [E2EListener]\<rparr>"

definition onMessage :: "Handler \<Rightarrow> Node \<Rightarrow> Node" where
  "onMessage handler s = s\<lparr>messageHandlers := messageHandlers s @ [handler]\<rparr>"

definition onKeyEnvelope :: "Handler \<Rightarrow> Node \<Rightarrow> Node" where
  "onKeyEnvelope handler s = s\<lparr>keyHandlers := keyHandlers s @ [handler]\<rparr>"

definition onPeerDiscovered :: "Node \<Rightarrow> Node" where
  "onPeerDiscovered s = s\<lparr>peerDiscoveredHandlers := Suc (peerDiscoveredHandlers s)\<rparr>"

definition onPeerLost :: "Node \<Rightarrow> Node" where
  "onPeerLost s = s\<lparr>peerLostHandlers := Suc (peerLostHandlers s)\<rparr>"

subsection \<open>MeshNetwork\<close>

text \<open>\<^verbatim>\<open>this.messageHandlers.forEach((handler) => handler(message))\<close>, callback by callback.\<close>

definition callMessageHandler ::
  "Crypto \<Rightarrow> string \<Rightarrow> MessageEnvelope \<Rightarrow> nat \<Rightarrow> Handler \<Rightarrow> Node \<Rightarrow> Node" where
  "callMessageHandler C now message i h s =
     (let s' = s\<lparr>messageCalls := messageCalls s @ [(i, message)]\<rparr> in
      case h of E2EListener \<Rightarrow> e2eMessageListener C now message s' | Observer \<Rightarrow> s')"

fun runMessageHandlers ::
  "Crypto \<Rightarrow> string \<Rightarrow> MessageEnvelope \<Rightarrow> nat \<Rightarrow> Handler list \<Rightarrow> Node \<Rightarrow> Node" where
  "runMessageHandlers C now message i [] s = s"
| "runMessageHandlers C now message i (h # hs) s =
     runMessageHandlers C now message (Suc i) hs (callMessageHandler C now message i h s)"

definition fireMessageHandlers :: "Crypto \<Rightarrow> string \<Rightarrow> MessageEnvelope \<Rightarrow> Node \<Rightarrow> Node" where
  "fireMessageHandlers C now message s =
     runMessageHandlers C now message 0 (messageHandlers s) s"

definition callKeyHandler ::
  "Crypto \<Rightarrow> string \<Rightarrow> KeyEnvelope \<Rightarrow> nat \<Rightarrow> Handler \<Rightarrow> Node \<Rightarrow> Node" where
  "callKeyHandler C now key i h s =
     (let s' = s\<lparr>keyCalls := keyCalls s @ [(i, key)]\<rparr> in
      case h of E2EListener \<Rightarrow> e2eKeyListener C now key s' | Observer \<Rightarrow> s')"

fun runKeyHandlers ::
  "Crypto \<Rightarrow> string \<Rightarrow> KeyEnvelope \<Rightarrow> nat \<Rightarrow> Handler list \<Rightarrow> Node \<Rightarrow> Node" where
  "runKeyHandlers C now key i [] s = s"
| "runKeyHandlers C now key i (h # hs) s =
     runKeyHandlers C now key (Suc i) hs (callKeyHandler C now key i h s)"

definition fireKeyHandlers :: "Crypto \<Rightarrow> string \<Rightarrow> KeyEnvelope \<Rightarrow> Node \<Rightarrow> Node" where
  "fireKeyHandlers C now key s = runKeyHandlers C now key 0 (keyHandlers s) s"

definition sendToServer :: "ClientFrame \<Rightarrow> Node \<Rightarrow> Node" where
  "sendToServer frame s = (if wsOpen s then s\<lparr>sent := sent s @ [frame]\<rparr> else s)"

definition forwardMessageEnvelope :: "string \<Rightarrow> MessageEnvelope \<Rightarrow> Node \<Rightarrow> Node" where
  "forwardMessageEnvelope now message s =
     sendToServer (MessageFrame (addHop (nodeId s) now message)) s"

definition handleMessageEnvelope :: "Crypto \<Rightarrow> string \<Rightarrow> MessageEnvelope \<Rightarrow> Node \<Rightarrow> Node" where
  "handleMessageEnvelope C now message s =
     (if isDuplicate (dedupe s) (msg_id message) then s
      else
        (let s1 = s\<lparr>dedupe := markAsProcessed (dedupe s) (msg_id message)\<rparr>;
             s2 = saveMessageEnvelope message s1;
             s3 = fireMessageHandlers C now message s2
         in if js_positive (msg_ttl message)
            then forwardMessageEnvelope now message s3 else s3))"

definition handleKeyEnvelope :: "Crypto \<Rightarrow> string \<Rightarrow> KeyEnvelope \<Rightarrow> Node \<Rightarrow> Node" where
  "handleKeyEnvelope C now key s =
     (if isDuplicate (dedupe s) (key_msg_id key) then s
      else
        (let s1 = s\<lparr>dedupe := markAsProcessed (dedupe s) (key_msg_id key)\<rparr>;
             s2 = saveKeyEnvelope key s1
         in fireKeyHandlers C now key s2))"

definition broadcastMessage :: "Crypto \<Rightarrow> string \<Rightarrow> MessageEnvelope \<Rightarrow> Node \<Rightarrow> Node" where
  "broadcastMessage C now message s =
     sendToServer (MessageFrame message)
       (fireMessageHandlers C now message (saveMessageEnvelope message s))"

definition broadcastKeyEnvelope :: "Crypto \<Rightarrow> string \<Rightarrow> KeyEnvelope \<Rightarrow> Node \<Rightarrow> Node" where
  "broadcastKeyEnvelope C now key s =
     sendToServer (KeyFrame key) (fireKeyHandlers C now key (saveKeyEnvelope key s))"

subsection \<open>BroadcastService.createBroadcast and E2EService.createE2EMessage\<close>

definition createBroadcast ::
  "Crypto \<Rightarrow> string \<Rightarrow> string \<Rightarrow> string \<Rightarrow> MessageMeta option \<Rightarrow> Node \<Rightarrow> Node \<times> MessageEnvelope" where
  "createBroadcast C uuid now content meta s =
     (let message = createBroadcastMessage uuid now content meta s
      in (broadcastMessage C now message (saveBroadcast message s), message))"

datatype Error = AdminPublicKeyNotAvailable | CryptoFailure

text \<open>
  \<open>sessionKey\<close> is the value of \<^verbatim>\<open>CryptoUtils.generateSessionKey()\<close>. An exception
  leaves the store untouched: every throwing statement comes before the first save.
\<close>

definition createE2EMessage ::
  "Crypto \<Rightarrow> string \<Rightarrow> string \<Rightarrow> string \<Rightarrow> string \<Rightarrow> MessageMeta option \<Rightarrow> Node
     \<Rightarrow> Error + (Node \<times> MessageEnvelope \<times> KeyEnvelope)" where
  "createE2EMessage C uuid sessionKey now content meta s =
     (case truthy (adminPublicKey s) of
        None \<Rightarrow> Inl AdminPublicKeyNotAvailable
      | Some adminPub \<Rightarrow>
         (case encryptMessage C content sessionKey of
            None \<Rightarrow> Inl CryptoFailure
          | Some encryptedPayload \<Rightarrow>
             (let messageEnvelope = createE2EMessageEnvelope uuid now encryptedPayload meta s in
              case wrapSessionKey C sessionKey adminPub of
                None \<Rightarrow> Inl CryptoFailure
              | Some wrappedKey \<Rightarrow>
                 (let keyEnvelope = createKeyEnvelope (msg_id messageEnvelope) wrappedKey s;
                      s1 = saveMessageEnvelope messageEnvelope s;
                      s2 = saveKeyEnvelope keyEnvelope s1;
                      s3 = broadcastMessage C now messageEnvelope s2;
                      s4 = broadcastKeyEnvelope C now keyEnvelope s3
                  in Inr (s4, messageEnvelope, keyEnvelope)))))"

subsection \<open>The hub connection of the relay (MeshNetwork.connectToServer)\<close>

definition ws_onopen :: "Node \<Rightarrow> Node" where
  "ws_onopen s =
     s\<lparr>wsOpen := True, reconnectAttempts := 0, sent := sent s @ [RegisterFrame (nodeId s)]\<rparr>"

text \<open>Every registered peer observer is called with the peer id, in registration order.\<close>

definition notifyAll :: "nat \<Rightarrow> string \<Rightarrow> (nat \<times> string) list" where
  "notifyAll handlers peerId = map (\<lambda>i. (i, peerId)) [0..<handlers]"

definition discoverPeer :: "Node \<Rightarrow> string \<Rightarrow> Node" where
  "discoverPeer s peerId =
     (if peerId \<notin> set (peers s)
      then s\<lparr>peers := peers s @ [peerId],
             peerDiscoveredCalls :=
               peerDiscoveredCalls s @ notifyAll (peerDiscoveredHandlers s) peerId\<rparr>
      else s)"

definition losePeer :: "Node \<Rightarrow> string \<Rightarrow> Node" where
  "losePeer s peerId =
     (if peerId \<in> set (peers s)
      then s\<lparr>peers := removeAll peerId (peers s),
             peerLostCalls := peerLostCalls s @ notifyAll (peerLostHandlers s) peerId\<rparr>
      else s)"

definition ws_onmessage :: "Crypto \<Rightarrow> string \<Rightarrow> ServerFrame \<Rightarrow> Node \<Rightarrow> Node" where
  "ws_onmessage C now frame s =
     (case frame of
        peer_list ps \<Rightarrow> foldl discoverPeer s ps
      | peer_connected peerId \<Rightarrow> discoverPeer s peerId
      | peer_disconnected peerId \<Rightarrow> losePeer s peerId
      | mesh_message envelope \<Rightarrow> handleMessageEnvelope C now envelope s
      | mesh_message_key envelope \<Rightarrow> handleKeyEnvelope C now envelope s
      | other_frame \<Rightarrow> s)"

definition ws_onerror :: "Node \<Rightarrow> Node" where
  "ws_onerror s = s"

text \<open>
  \<^verbatim>\<open>ws.onclose\<close>, statement by statement: the peer set is cleared, then every peer-lost
  callback is called for every peer of \<^verbatim>\<open>Array.from(this.peers)\<close>, then the set is
  cleared again and the reconnect is scheduled.
\<close>

definition ws_onclose :: "Node \<Rightarrow> Node" where
  "ws_onclose s =
     (let s1 = s\<lparr>wsOpen := False, peers := []\<rparr>;
          s2 = s1\<lparr>peerLostCalls := peerLostCalls s1 @
                 concat (map (\<lambda>i. map (\<lambda>peerId. (i, peerId)) (peers s1))
                             [0..<peerLostHandlers s1])\<rparr>;
          s3 = s2\<lparr>peers := []\<rparr>
      in if reconnectAttempts s3 < maxReconnectAttempts
         then s3\<lparr>reconnectAttempts := reconnectAttempts s3 + 1,
                 timers := timers s3 @ [reconnectDelay]\<rparr>
         else s3)"

text \<open>A clean node: empty storage, no callback registered, no socket.\<close>

definition freshNode :: "string \<Rightarrow> Node" where
  "freshNode self =
     \<lparr>nodeId = self, broadcasts = [], messageMesh = [], keyMesh = [], decrypted = [],
      dedupe = [], adminMode = False, adminPrivateKey = None, adminPublicKey = None,
      peers = [], messageHandlers = [], keyHandlers = [],
      peerDiscoveredHandlers = 0, peerLostHandlers = 0, wsOpen = False,
      reconnectAttempts = 0, sent = [], timers = [], messageCalls = [], keyCalls = [],
      peerDiscoveredCalls = [], peerLostCalls = []\<rparr>"

text \<open>\<^verbatim>\<open>AdminKeyStore.saveAdminKeyPair\<close>: both keys are stored and admin mode is set.\<close>

definition saveAdminKeyPair :: "string \<Rightarrow> string \<Rightarrow> Node \<Rightarrow> Node" where
  "saveAdminKeyPair publicKey privateKey s =
     s\<lparr>adminPrivateKey := Some privateKey, adminPublicKey := Some publicKey,
       adminMode := True\<rparr>"


section \<open>Hub relay and gateway (electron/main.js)\<close>

text \<open>
  The hub never looks inside an envelope: its state and frames are polymorphic in the
  envelope type \<open>'e\<close>. A session is the socket of one \<^verbatim>\<open>wss.on('connection')\<close> call,
  named by a number. \<open>hub_peers\<close> is the \<^verbatim>\<open>Map\<close> \<^verbatim>\<open>peers\<close> in insertion order
  (\<^verbatim>\<open>set\<close> on a bound key replaces the value in place, as \<open>AList.update\<close> does),
  \<open>hub_peerId\<close> the variable \<^verbatim>\<open>peerId\<close> of each connection's closure,
  \<open>hub_open\<close> says whether \<^verbatim>\<open>ws.readyState === WebSocket.OPEN\<close>, and
  \<open>hub_out\<close> keeps the frames written to each socket. The \<^verbatim>\<open>peerInfo\<close> map and the
  notifications to the renderer window are not modelled: nothing reads them back.
\<close>

datatype 'e HubFrame =
    hub_peer_list "string list"
  | hub_peer_connected string
  | hub_peer_disconnected string
  | hub_mesh_message 'e string "string option"

text \<open>
  A parsed frame from a peer: \<^verbatim>\<open>register\<close> with its \<^verbatim>\<open>peerId\<close>, or
  \<^verbatim>\<open>mesh_message\<close> with its \<^verbatim>\<open>envelope\<close> (\<open>None\<close> when absent or falsy) and its
  \<^verbatim>\<open>envelopeType\<close>; a frame of any other type is ignored.
\<close>

datatype 'e PeerFrame =
    register string
  | peer_mesh_message "'e option" "string option"
  | unknown_frame

record 'e Hub =
  hub_peers :: "(string \<times> nat) list"
  hub_peerId :: "nat \<Rightarrow> string option"
  hub_open :: "nat \<Rightarrow> bool"
  hub_out :: "nat \<Rightarrow> 'e HubFrame list"
  hub_timers :: "(nat \<times> 'e HubFrame) list"

definition emptyHub :: "'e Hub" where
  "emptyHub =
     \<lparr>hub_peers = [], hub_peerId = (\<lambda>_. None), hub_open = (\<lambda>_. False),
      hub_out = (\<lambda>_. []), hub_timers = []\<rparr>"

definition ws_send :: "nat \<Rightarrow> 'e HubFrame \<Rightarrow> 'e Hub \<Rightarrow> 'e Hub" where
  "ws_send ws frame h = h\<lparr>hub_out := (hub_out h)(ws := hub_out h ws @ [frame])\<rparr>"

definition broadcastToOthers :: "string \<Rightarrow> 'e HubFrame \<Rightarrow> 'e Hub \<Rightarrow> 'e Hub" where
  "broadcastToOthers excludePeerId frame h =
     foldl (\<lambda>h' (peerId, ws).
              if peerId \<noteq> excludePeerId \<and> hub_open h' ws then ws_send ws frame h' else h')
           h (hub_peers h)"

definition sendToAllPeers :: "'e HubFrame \<Rightarrow> 'e Hub \<Rightarrow> 'e Hub" where
  "sendToAllPeers frame h =
     foldl (\<lambda>h' (peerId, ws). if hub_open h' ws then ws_send ws frame h' else h')
           h (hub_peers h)"

definition on_connection :: "nat \<Rightarrow> 'e Hub \<Rightarrow> 'e Hub" where
  "on_connection ws h =
     h\<lparr>hub_peerId := (hub_peerId h)(ws := None), hub_open := (hub_open h)(ws := True)\<rparr>"

definition on_message :: "nat \<Rightarrow> 'e PeerFrame \<Rightarrow> 'e Hub \<Rightarrow> 'e Hub" where
  "on_message ws frame h =
     (case frame of
        register peerId \<Rightarrow>
          (let h1 = h\<lparr>hub_peerId := (hub_peerId h)(ws := Some peerId),
                      hub_peers := AList.update peerId ws (hub_peers h)\<rparr>;
               h2 = broadcastToOthers peerId (hub_peer_connected peerId) h1;
               existingPeers = filter (\<lambda>id. id \<noteq> peerId) (map fst (hub_peers h2))
           in ws_send ws (hub_peer_list existingPeers) h2)
      | peer_mesh_message envelope envelopeType \<Rightarrow>
          (case envelope of
             None \<Rightarrow> h
           | Some e \<Rightarrow>
              (case truthy (hub_peerId h ws) of
                 None \<Rightarrow> h
               | Some peerId \<Rightarrow>
                   broadcastToOthers peerId (hub_mesh_message e peerId envelopeType) h))
      | unknown_frame \<Rightarrow> h)"

definition on_close :: "nat \<Rightarrow> 'e Hub \<Rightarrow> 'e Hub" where
  "on_close ws h =
     (let h0 = h\<lparr>hub_open := (hub_open h)(ws := False)\<rparr> in
      case truthy (hub_peerId h0 ws) of
        None \<Rightarrow> h0
      | Some peerId \<Rightarrow>
          broadcastToOthers peerId (hub_peer_disconnected peerId)
            (h0\<lparr>hub_peers := AList.delete peerId (hub_peers h0)\<rparr>))"

datatype 'e HubEvent = Connection nat | Message nat "'e PeerFrame" | Close nat

definition hub_step :: "'e Hub \<Rightarrow> 'e HubEvent \<Rightarrow> 'e Hub" where
  "hub_step h ev =
     (case ev of
        Connection ws \<Rightarrow> on_connection ws h
      | Message ws frame \<Rightarrow> on_message ws frame h
      | Close ws \<Rightarrow> on_close ws h)"

definition hub_run :: "'e HubEvent list \<Rightarrow> 'e Hub" where
  "hub_run evs = foldl hub_step emptyHub evs"

text \<open>The open sessions that hold a peer id: the registered sessions.\<close>

definition registered :: "'e Hub \<Rightarrow> nat \<Rightarrow> bool" where
  "registered h ws = (hub_open h ws \<and> hub_peerId h ws \<noteq> None)"

subsection \<open>POST /gateway/submit\<close>

text \<open>
  The JSON body of the request; an absent field is \<open>None\<close>. The gateway builds both
  envelopes itself, so here the hub's envelope type is the sum of the two.
\<close>

record GatewayBody =
  gw_encryptedPayload :: "string option"
  gw_wrappedKey :: "string option"
  gw_msgId :: "string option"
  gw_from :: "string option"
  gw_meta :: "MessageMeta option"

datatype Envelope = MessageEnv MessageEnvelope | KeyEnv KeyEnvelope

datatype ResponseBody = error_body string | success_body string

datatype Response = Response nat ResponseBody

definition emptyMeta :: MessageMeta where
  "emptyMeta =
     \<lparr>meta_name = None, meta_location = None, meta_contact = None, meta_imageRef = None\<rparr>"

definition gatewayMessageEnvelope :: "string \<Rightarrow> GatewayBody \<Rightarrow> string \<Rightarrow> string \<Rightarrow> MessageEnvelope" where
  "gatewayMessageEnvelope now body msgId encryptedPayload =
     \<lparr>msg_id = msgId, msg_type = e2e,
      msg_from = (case truthy (gw_from body) of Some f \<Rightarrow> f | None \<Rightarrow> ''gateway_user''),
      msg_to = ''admin'', msg_timestamp = now, msg_ttl = Num 8,
      msg_hops = [\<lparr>hop_nodeId = ''gateway'', hop_timestamp = now\<rparr>],
      msg_payload = encryptedPayload,
      msg_meta = Some (case gw_meta body of Some m \<Rightarrow> m | None \<Rightarrow> emptyMeta)\<rparr>"

definition gatewayKeyEnvelope :: "GatewayBody \<Rightarrow> string \<Rightarrow> string \<Rightarrow> KeyEnvelope" where
  "gatewayKeyEnvelope body msgId wrappedKey =
     \<lparr>key_msg_id = msgId,
      key_from = (case truthy (gw_from body) of Some f \<Rightarrow> f | None \<Rightarrow> ''gateway_user''),
      key_to = ''admin'', key_wrapped_key = wrappedKey,
      key_algorithm = ''x25519+aes-256-gcm''\<rparr>"

text \<open>
  The handler answers at once; the key frame is left in a timer of 100 ms, which
  \<open>gateway_timer\<close> fires: it writes the frame to the peers open at that moment.
  The \<^verbatim>\<open>catch\<close> branch (status 500) needs a socket write to throw and is not modelled.
\<close>

definition gateway_submit :: "string \<Rightarrow> GatewayBody \<Rightarrow> Envelope Hub \<Rightarrow> Response \<times> Envelope Hub" where
  "gateway_submit now body h =
     (case truthy (gw_encryptedPayload body) of
        None \<Rightarrow> (Response 400 (error_body ''Missing required fields''), h)
      | Some encryptedPayload \<Rightarrow>
         (case truthy (gw_wrappedKey body) of
            None \<Rightarrow> (Response 400 (error_body ''Missing required fields''), h)
          | Some wrappedKey \<Rightarrow>
             (case truthy (gw_msgId body) of
                None \<Rightarrow> (Response 400 (error_body ''Missing required fields''), h)
              | Some msgId \<Rightarrow>
                 (let messageEnvelope = gatewayMessageEnvelope now body msgId encryptedPayload;
                      keyEnvelope = gatewayKeyEnvelope body msgId wrappedKey;
                      h1 = sendToAllPeers
                             (hub_mesh_message (MessageEnv messageEnvelope) ''gateway'' None) h;
                      h2 = h1\<lparr>hub_timers := hub_timers h1 @
                             [(100, hub_mesh_message (KeyEnv keyEnvelope) ''gateway''
                                      (Some ''key''))]\<rparr>
                  in (Response 200 (success_body msgId), h2)))))"

definition gateway_timer :: "'e Hub \<Rightarrow> 'e Hub" where
  "gateway_timer h =
     (case hub_timers h of
        [] \<Rightarrow> h
      | (delay, frame) # rest \<Rightarrow> sendToAllPeers frame (h\<lparr>hub_timers := rest\<rparr>))"


section \<open>Runs of a node\<close>

text \<open>
  What can happen to a node, one event at a time: the socket callbacks, the two user
  actions that originate a message, the construction of an \<^verbatim>\<open>E2EService\<close>, the
  registration of an observer, and the initialisation of admin mode. Each event carries
  its own clock reading.
\<close>

datatype NodeEvent =
    SocketOpen
  | SocketMessage ServerFrame
  | SocketError
  | SocketClose
  | CreateBroadcast string string "MessageMeta option"
  | CreateE2EMessage string string string "MessageMeta option"
  | NewE2EService
  | OnMessage Handler
  | OnKeyEnvelope Handler
  | OnPeerDiscovered
  | OnPeerLost
  | InitializeAdminMode string string

definition node_step :: "Crypto \<Rightarrow> Node \<Rightarrow> string \<times> NodeEvent \<Rightarrow> Node" where
  "node_step C s e =
     (case e of (now, ev) \<Rightarrow>
        (case ev of
           SocketOpen \<Rightarrow> ws_onopen s
         | SocketMessage frame \<Rightarrow> ws_onmessage C now frame s
         | SocketError \<Rightarrow> ws_onerror s
         | SocketClose \<Rightarrow> ws_onclose s
         | CreateBroadcast uuid content meta \<Rightarrow> fst (createBroadcast C uuid now content meta s)
         | CreateE2EMessage uuid sessionKey content meta \<Rightarrow>
             (case createE2EMessage C uuid sessionKey now content meta s of
                Inl err \<Rightarrow> s
              | Inr r \<Rightarrow> fst r)
         | NewE2EService \<Rightarrow> newE2EService s
         | OnMessage h \<Rightarrow> onMessage h s
         | OnKeyEnvelope h \<Rightarrow> onKeyEnvelope h s
         | OnPeerDiscovered \<Rightarrow> onPeerDiscovered s
         | OnPeerLost \<Rightarrow> onPeerLost s
         | InitializeAdminMode publicKey privateKey \<Rightarrow> saveAdminKeyPair publicKey privateKey s))"

definition node_run :: "Crypto \<Rightarrow> Node \<Rightarrow> (string \<times> NodeEvent) list \<Rightarrow> Node" where
  "node_run C s evs = foldl (node_step C) s evs"

text \<open>
  Two counts read off a node: the DecryptedMessages stored under an id, and the callback
  invocations (message and key callbacks together) made with an envelope of that id.
\<close>

definition joinsOf :: "string \<Rightarrow> Node \<Rightarrow> nat" where
  "joinsOf x s = length (filter (\<lambda>d. dec_msg_id d = x) (decrypted s))"

definition callsOf :: "string \<Rightarrow> Node \<Rightarrow> nat" where
  "callsOf x s =
     length (filter (\<lambda>c. msg_id (snd c) = x) (messageCalls s))
     + length (filter (\<lambda>c. key_msg_id (snd c) = x) (keyCalls s))"

section \<open>Scenarios\<close>

text \<open>
  A symbolic stand-in for libsodium, used only to run scenarios: a ciphertext is the key
  followed by the plaintext, a wrapped key is the public key followed by the session key,
  opening with another key fails, and a key pair has equal halves.
\<close>

definition modelCrypto :: Crypto where
  "modelCrypto =
     \<lparr>encryptMessage = (\<lambda>content key. Some (key @ content)),
      decryptMessage = (\<lambda>payload key.
         if take (length key) payload = key then Some (drop (length key) payload) else None),
      wrapSessionKey = (\<lambda>key pub. Some (pub @ key)),
      unwrapSessionKey = (\<lambda>wrapped priv.
         if take (length priv) wrapped = priv
         then Some (drop (length priv) wrapped) else None)\<rparr>"

text \<open>
  Admin node Z: admin keys stored, one \<^verbatim>\<open>E2EService\<close> constructed, socket open.
  Node A: one message observer and one peer-lost observer registered, socket open,
  peers b and c known.
\<close>

definition nodeZ :: Node where
  "nodeZ = ws_onopen (newE2EService
             (saveAdminKeyPair ''A'' ''A'' (freshNode ''000000000000000000000000000000ff'')))"

definition nodeA :: Node where
  "nodeA = ws_onmessage modelCrypto ''t0'' (peer_list [''b'', ''c''])
             (ws_onopen (onPeerLost (onMessage Observer
                (freshNode ''00000000000000000000000000000001''))))"

text \<open>Scenario S4: sender S encrypts "evacuate" under session key K for admin key A.\<close>

definition m4 :: MessageEnvelope where
  "m4 = \<lparr>msg_id = ''m4'', msg_type = e2e, msg_from = ''user_00000005'', msg_to = ''admin'',
         msg_timestamp = ''t0'', msg_ttl = Num 8,
         msg_hops = [\<lparr>hop_nodeId = ''00000000000000000000000000000005'',
                      hop_timestamp = ''t0''\<rparr>],
         msg_payload = ''Kevacuate'', msg_meta = None\<rparr>"

definition k4 :: KeyEnvelope where
  "k4 = \<lparr>key_msg_id = ''m4'', key_from = ''user_00000005'', key_to = ''admin'',
         key_wrapped_key = ''AK'', key_algorithm = ''x25519+aes-256-gcm''\<rparr>"

text \<open>Scenario S3: a broadcast that reaches a relay with ttl 1.\<close>

definition m3 :: MessageEnvelope where
  "m3 = \<lparr>msg_id = ''m3'', msg_type = broadcast, msg_from = ''user_00000005'', msg_to = ''all'',
         msg_timestamp = ''t0'', msg_ttl = Num 1,
         msg_hops = [\<lparr>hop_nodeId = ''00000000000000000000000000000005'',
                      hop_timestamp = ''t0''\<rparr>],
         msg_payload = ''hi'', msg_meta = None\<rparr>"


text \<open>
  A hub with two registered peers, and a well-formed gateway submission (scenario S4 sent
  through the gateway).
\<close>

definition twoPeerHub :: "Envelope Hub" where
  "twoPeerHub = hub_run [Connection 1, Message 1 (register ''A''),
                         Connection 2, Message 2 (register ''B'')]"

definition gatewayBody :: GatewayBody where
  "gatewayBody = \<lparr>gw_encryptedPayload = Some ''Kevacuate'', gw_wrappedKey = Some ''AK'',
                   gw_msgId = Some ''m6'', gw_from = None, gw_meta = None\<rparr>"

section \<open>Properties of the number model\<close>

lemma roundHalfEven_of_int [simp]: "roundHalfEven (of_int n) = n"
  by (simp add: roundHalfEven_def)

lemma binade_Some:
  assumes "k < 2046" "\<bar>x\<bar> * 2 ^ 1074 < 2 ^ (k + 53)"
      and "k = 0 \<or> 2 ^ (k + 52) \<le> \<bar>x\<bar> * 2 ^ 1074"
  shows "binade x = Some k"
proof -
  have low: "\<not> \<bar>x\<bar> * 2 ^ 1074 < 2 ^ (j + 53)" if "j < k" for j
  proof -
    from that assms(3) have le: "(2::real) ^ (k + 52) \<le> \<bar>x\<bar> * 2 ^ 1074" by auto
    have "j + 53 \<le> k + 52" using that by simp
    then have "(2::real) ^ (j + 53) \<le> 2 ^ (k + 52)"
      by (rule power_increasing) simp
    with le show ?thesis by linarith
  qed
  have "List.find (\<lambda>k. \<bar>x\<bar> * 2 ^ 1074 < 2 ^ (k + 53)) [0..<2046] = Some k"
    unfolding find_Some_iff
    by (intro exI [of _ k]) (use assms(1,2) low in auto)
  then show ?thesis by (simp add: binade_def)
qed

lemma binade_below:
  assumes "k0 < 2046" "\<bar>x\<bar> * 2 ^ 1074 < 2 ^ (k0 + 53)"
  shows "\<exists>k \<le> k0. binade x = Some k"
proof -
  let ?P = "\<lambda>k. \<bar>x\<bar> * 2 ^ 1074 < 2 ^ (k + 53)"
  have "List.find ?P [0..<2046] \<noteq> None"
    unfolding find_None_iff using assms by auto
  then obtain k where k: "List.find ?P [0..<2046] = Some k" by blast
  then obtain i where i: "i < 2046" "k = i" "\<forall>j<i. \<not> ?P ([0..<2046] ! j)"
    unfolding find_Some_iff by auto
  have "k \<le> k0"
  proof (rule ccontr)
    assume "\<not> k \<le> k0"
    then have "k0 < i" using i(2) by simp
    then have "\<not> ?P ([0..<2046] ! k0)" using i(3) by blast
    then show False using assms by simp
  qed
  then show ?thesis using k by (simp add: binade_def)
qed

text \<open>
  A dyadic number with a significand below \<open>2 ^ 53\<close> and no bit below the smallest
  subnormal is a double, and rounding leaves it alone.
\<close>

lemma dyadic_scale:
  fixes m :: int
  assumes "j \<le> N" "k \<le> N - j"
  shows "\<bar>of_int m / 2 ^ j :: real\<bar> * 2 ^ N = \<bar>of_int m\<bar> * 2 ^ (N - j)"
    and "of_int m / 2 ^ j * 2 ^ N / 2 ^ k = (of_int (m * 2 ^ (N - j - k)) :: real)"
    and "of_int (m * 2 ^ (N - j - k)) * 2 ^ k / 2 ^ N = (of_int m / 2 ^ j :: real)"
proof -
  have pj: "(2::real) ^ N = 2 ^ j * 2 ^ (N - j)"
    using assms(1) by (simp add: power_add [symmetric])
  have pk: "(2::real) ^ (N - j) = 2 ^ k * 2 ^ (N - j - k)"
    using assms(2) by (simp add: power_add [symmetric])
  show "\<bar>of_int m / 2 ^ j :: real\<bar> * 2 ^ N = \<bar>of_int m\<bar> * 2 ^ (N - j)"
    by (simp add: pj abs_divide)
  show "of_int m / 2 ^ j * 2 ^ N / 2 ^ k = (of_int (m * 2 ^ (N - j - k)) :: real)"
    by (simp add: pj pk)
  show "of_int (m * 2 ^ (N - j - k)) * 2 ^ k / 2 ^ N = (of_int m / 2 ^ j :: real)"
    by (simp add: pj pk)
qed

lemma dyadic_bound:
  fixes m :: int
  assumes "\<bar>m\<bar> < 2 ^ 53"
  shows "\<bar>of_int m :: real\<bar> * 2 ^ M < 2 ^ (M + 53)"
    and "\<bar>of_int m / 2 ^ j :: real\<bar> < 2 ^ 53"
proof -
  have b: "\<bar>of_int m :: real\<bar> < 2 ^ 53"
    using assms by (metis of_int_abs of_int_less_numeral_power_cancel_iff)
  then show "\<bar>of_int m :: real\<bar> * 2 ^ M < 2 ^ (M + 53)"
    by (simp add: power_add)
  have "\<bar>of_int m / 2 ^ j :: real\<bar> \<le> \<bar>of_int m\<bar>"
    by (simp add: abs_divide divide_le_eq_1_pos mult_le_cancel_left1 field_simps)
  with b show "\<bar>of_int m / 2 ^ j :: real\<bar> < 2 ^ 53" by linarith
qed

lemma toDouble_exact:
  assumes m: "\<bar>m\<bar> < 2 ^ 53" and j: "j \<le> 1074"
  shows "toDouble (of_int m / 2 ^ j) = Num (of_int m / 2 ^ j)"
proof -
  let ?x = "of_int m / 2 ^ j :: real"
  have "\<bar>?x\<bar> * 2 ^ 1074 < 2 ^ ((1074 - j) + 53)"
    unfolding dyadic_scale(1) [OF j le_refl] by (rule dyadic_bound(1) [OF m])
  moreover have "1074 - j < 2046" by simp
  ultimately obtain k where k: "k \<le> 1074 - j" "binade ?x = Some k"
    using binade_below [of "1074 - j" ?x] by blast
  have "(2::real) ^ 53 \<le> 2 ^ 1024" by (rule power_increasing) simp_all
  with dyadic_bound(2) [OF m, of j] have small: "\<not> 2 ^ 1024 \<le> \<bar>?x\<bar>" by linarith
  show ?thesis
    unfolding toDouble_def k(2) option.case Let_def dyadic_scale(2) [OF j k(1)]
      roundHalfEven_of_int dyadic_scale(3) [OF j k(1)]
    using small by (simp only: if_False)
qed

lemma js_minus_one_integer:
  assumes "1 \<le> n" "n \<le> 2 ^ 53"
  shows "js_minus_one (Num (of_int n)) = Num (of_int (n - 1))"
proof -
  have "\<bar>n - 1\<bar> < 2 ^ 53" using assms by simp
  from toDouble_exact [OF this, of 0] show ?thesis
    by (simp add: js_minus_one_def)
qed

lemma js_minus_one_numerals [simp]:
  "js_minus_one (Num 8) = Num 7"
  "js_minus_one (Num 1) = Num 0"
  "js_minus_one (Num (1 / 2)) = Num (- (1 / 2))"
proof -
  show "js_minus_one (Num 8) = Num 7"
    using js_minus_one_integer [of 8] by simp
  show "js_minus_one (Num 1) = Num 0"
    using js_minus_one_integer [of 1] by simp
  show "js_minus_one (Num (1 / 2)) = Num (- (1 / 2))"
    using toDouble_exact [of "- 1" 1] by (simp add: js_minus_one_def)
qed

text \<open>Beyond \<open>2 ^ 53\<close> the subtraction rounds: the tie goes to the even significand.\<close>

lemma js_minus_one_beyond_safe:
  "js_minus_one (Num (2 ^ 53 + 2)) = Num (2 ^ 53)"
proof -
  have b: "binade (2 ^ 53 + 1) = Some 1075"
    by (rule binade_Some) simp_all
  have r: "roundHalfEven ((2 ^ 53 + 1) * 2 ^ 1074 / 2 ^ 1075) = 2 ^ 52"
    by (simp add: roundHalfEven_def Let_def)
  have "toDouble (2 ^ 53 + 1) = Num (2 ^ 53)"
    unfolding toDouble_def b option.case Let_def r by simp
  then show ?thesis by (simp add: js_minus_one_def)
qed

section \<open>Properties of the deduplication store\<close>

lemma markAsProcessed_present:
  "msgId \<in> set store \<Longrightarrow> markAsProcessed store msgId = store"
  by (simp add: markAsProcessed_def)

lemma markAsProcessed_length:
  "length store \<le> 1000 \<Longrightarrow> length (markAsProcessed store msgId) \<le> 1000"
  by (simp add: markAsProcessed_def Let_def)

lemma markAsProcessed_distinct:
  "distinct store \<Longrightarrow> distinct (markAsProcessed store msgId)"
  by (auto simp: markAsProcessed_def Let_def distinct_tl)

lemma isDuplicate_markAsProcessed:
  "isDuplicate (markAsProcessed store msgId) msgId"
proof (cases "msgId \<in> set store")
  case True
  then show ?thesis by (simp add: markAsProcessed_def isDuplicate_def)
next
  case False
  show ?thesis
  proof (cases store)
    case Nil
    then show ?thesis
      by (simp add: markAsProcessed_def isDuplicate_def)
  next
    case (Cons a as)
    then show ?thesis using False
      by (simp add: markAsProcessed_def isDuplicate_def Let_def)
  qed
qed

lemma markAll_length:
  "length store \<le> 1000 \<Longrightarrow> length (markAll store ids) \<le> 1000"
  unfolding markAll_def
  by (induction ids arbitrary: store) (simp_all add: markAsProcessed_length)

section \<open>Properties of the node relay\<close>

text \<open>
  The join writes the decrypted log and nothing else, at most one entry a call, and the
  entry carries the id the call was made for. The same then holds, callback by callback,
  for a whole round of callbacks.
\<close>

lemma tryDecryptMessage_only_decrypted:
  "tryDecryptMessage C now mo ko s = s\<lparr>decrypted := decrypted (tryDecryptMessage C now mo ko s)\<rparr>"
  by (simp add: tryDecryptMessage_def saveDecryptedMessage_def split: option.splits)

lemma tryDecryptMessage_decrypted:
  "\<exists>ds. decrypted (tryDecryptMessage C now mo ko s) = decrypted s @ ds
        \<and> length ds \<le> 1
        \<and> (\<forall>d \<in> set ds. js_or (map_option msg_id mo) (map_option key_msg_id ko) = Some (dec_msg_id d))"
  by (simp add: tryDecryptMessage_def saveDecryptedMessage_def split: option.splits)

lemma tryDecryptMessage_frame:
  "\<exists>ds. tryDecryptMessage C now mo ko s = s\<lparr>decrypted := decrypted s @ ds\<rparr>
        \<and> length ds \<le> 1
        \<and> (\<forall>d \<in> set ds. js_or (map_option msg_id mo) (map_option key_msg_id ko) = Some (dec_msg_id d))"
proof -
  obtain ds where ds: "decrypted (tryDecryptMessage C now mo ko s) = decrypted s @ ds"
      "length ds \<le> 1"
      "\<forall>d \<in> set ds. js_or (map_option msg_id mo) (map_option key_msg_id ko) = Some (dec_msg_id d)"
    using tryDecryptMessage_decrypted by blast
  have "tryDecryptMessage C now mo ko s = s\<lparr>decrypted := decrypted s @ ds\<rparr>"
    using tryDecryptMessage_only_decrypted [of C now mo ko s] ds(1) by simp
  with ds show ?thesis by blast
qed

lemma callMessageHandler_frame:
  "\<exists>ds. callMessageHandler C now m i h s =
          s\<lparr>messageCalls := messageCalls s @ [(i, m)], decrypted := decrypted s @ ds\<rparr>
        \<and> length ds \<le> 1 \<and> (\<forall>d \<in> set ds. dec_msg_id d = msg_id m)"
proof (cases "h = E2EListener \<and> msg_type m = e2e \<and> adminMode s")
  case True
  let ?s' = "s\<lparr>messageCalls := messageCalls s @ [(i, m)]\<rparr>"
  obtain ds where ds: "tryDecryptMessage C now (Some m) None ?s' = ?s'\<lparr>decrypted := decrypted ?s' @ ds\<rparr>"
      "length ds \<le> 1"
      "\<forall>d \<in> set ds. js_or (map_option msg_id (Some m)) (map_option key_msg_id None) = Some (dec_msg_id d)"
    using tryDecryptMessage_frame [of C now "Some m" None ?s'] by auto
  have ids: "\<forall>d \<in> set ds. dec_msg_id d = msg_id m"
    using ds(3) by (auto simp: js_or_def truthy_def split: if_splits)
  have "callMessageHandler C now m i h s = tryDecryptMessage C now (Some m) None ?s'"
    using True by (simp add: callMessageHandler_def e2eMessageListener_def)
  with ds(1) have "callMessageHandler C now m i h s =
          s\<lparr>messageCalls := messageCalls s @ [(i, m)], decrypted := decrypted s @ ds\<rparr>"
    by simp
  with ds(2) ids show ?thesis by blast
next
  case False
  then have "callMessageHandler C now m i h s =
          s\<lparr>messageCalls := messageCalls s @ [(i, m)], decrypted := decrypted s @ []\<rparr>"
    by (cases h) (auto simp: callMessageHandler_def e2eMessageListener_def)
  then show ?thesis by (intro exI [of _ "[]"]) simp
qed

lemma runMessageHandlers_frame:
  "\<exists>ds. runMessageHandlers C now m i hs s =
          s\<lparr>messageCalls := messageCalls s @ map (\<lambda>j. (j, m)) [i..<i + length hs],
            decrypted := decrypted s @ ds\<rparr>
        \<and> length ds \<le> length hs \<and> (\<forall>d \<in> set ds. dec_msg_id d = msg_id m)"
proof (induction hs arbitrary: i s)
  case Nil
  show ?case by (intro exI [of _ "[]"]) simp
next
  case (Cons h hs)
  obtain d1 where d1: "callMessageHandler C now m i h s =
          s\<lparr>messageCalls := messageCalls s @ [(i, m)], decrypted := decrypted s @ d1\<rparr>"
      "length d1 \<le> 1" "\<forall>d \<in> set d1. dec_msg_id d = msg_id m"
    using callMessageHandler_frame by blast
  let ?s1 = "s\<lparr>messageCalls := messageCalls s @ [(i, m)], decrypted := decrypted s @ d1\<rparr>"
  obtain d2 where d2: "runMessageHandlers C now m (Suc i) hs ?s1 =
          ?s1\<lparr>messageCalls := messageCalls ?s1 @ map (\<lambda>j. (j, m)) [Suc i..<Suc i + length hs],
            decrypted := decrypted ?s1 @ d2\<rparr>"
      "length d2 \<le> length hs" "\<forall>d \<in> set d2. dec_msg_id d = msg_id m"
    using Cons.IH [of "Suc i" ?s1] by auto
  have "runMessageHandlers C now m i (h # hs) s =
          s\<lparr>messageCalls := messageCalls s @ map (\<lambda>j. (j, m)) [i..<i + length (h # hs)],
            decrypted := decrypted s @ (d1 @ d2)\<rparr>"
    using d1(1) d2(1) by (simp add: upt_conv_Cons del: upt_Suc)
  moreover have "length (d1 @ d2) \<le> length (h # hs)" using d1(2) d2(2) by simp
  moreover have "\<forall>d \<in> set (d1 @ d2). dec_msg_id d = msg_id m" using d1(3) d2(3) by auto
  ultimately show ?case by blast
qed


lemma fireMessageHandlers_frame:
  "\<exists>ds. fireMessageHandlers C now m s =
          s\<lparr>messageCalls := messageCalls s @ map (\<lambda>j. (j, m)) [0..<length (messageHandlers s)],
            decrypted := decrypted s @ ds\<rparr>
        \<and> length ds \<le> length (messageHandlers s) \<and> (\<forall>d \<in> set ds. dec_msg_id d = msg_id m)"
  using runMessageHandlers_frame [of C now m 0 "messageHandlers s" s]
  by (simp add: fireMessageHandlers_def)

lemma callKeyHandler_frame:
  "\<exists>ds. callKeyHandler C now k i h s =
          s\<lparr>keyCalls := keyCalls s @ [(i, k)], decrypted := decrypted s @ ds\<rparr>
        \<and> length ds \<le> 1 \<and> (\<forall>d \<in> set ds. dec_msg_id d = key_msg_id k)"
proof (cases "h = E2EListener \<and> adminMode s")
  case True
  let ?s' = "s\<lparr>keyCalls := keyCalls s @ [(i, k)]\<rparr>"
  obtain ds where ds: "tryDecryptMessage C now None (Some k) ?s' = ?s'\<lparr>decrypted := decrypted ?s' @ ds\<rparr>"
      "length ds \<le> 1"
      "\<forall>d \<in> set ds. js_or (map_option msg_id None) (map_option key_msg_id (Some k)) = Some (dec_msg_id d)"
    using tryDecryptMessage_frame [of C now None "Some k" ?s'] by auto
  have ids: "\<forall>d \<in> set ds. dec_msg_id d = key_msg_id k"
    using ds(3) by (auto simp: js_or_def truthy_def split: if_splits)
  have "callKeyHandler C now k i h s = tryDecryptMessage C now None (Some k) ?s'"
    using True by (simp add: callKeyHandler_def e2eKeyListener_def)
  with ds(1) have "callKeyHandler C now k i h s =
          s\<lparr>keyCalls := keyCalls s @ [(i, k)], decrypted := decrypted s @ ds\<rparr>"
    by simp
  with ds(2) ids show ?thesis by blast
next
  case False
  then have "callKeyHandler C now k i h s =
          s\<lparr>keyCalls := keyCalls s @ [(i, k)], decrypted := decrypted s @ []\<rparr>"
    by (cases h) (auto simp: callKeyHandler_def e2eKeyListener_def)
  then show ?thesis by (intro exI [of _ "[]"]) simp
qed

lemma runKeyHandlers_frame:
  "\<exists>ds. runKeyHandlers C now k i hs s =
          s\<lparr>keyCalls := keyCalls s @ map (\<lambda>j. (j, k)) [i..<i + length hs],
            decrypted := decrypted s @ ds\<rparr>
        \<and> length ds \<le> length hs \<and> (\<forall>d \<in> set ds. dec_msg_id d = key_msg_id k)"
proof (induction hs arbitrary: i s)
  case Nil
  show ?case by (intro exI [of _ "[]"]) simp
next
  case (Cons h hs)
  obtain d1 where d1: "callKeyHandler C now k i h s =
          s\<lparr>keyCalls := keyCalls s @ [(i, k)], decrypted := decrypted s @ d1\<rparr>"
      "length d1 \<le> 1" "\<forall>d \<in> set d1. dec_msg_id d = key_msg_id k"
    using callKeyHandler_frame by blast
  let ?s1 = "s\<lparr>keyCalls := keyCalls s @ [(i, k)], decrypted := decrypted s @ d1\<rparr>"
  obtain d2 where d2: "runKeyHandlers C now k (Suc i) hs ?s1 =
          ?s1\<lparr>keyCalls := keyCalls ?s1 @ map (\<lambda>j. (j, k)) [Suc i..<Suc i + length hs],
            decrypted := decrypted ?s1 @ d2\<rparr>"
      "length d2 \<le> length hs" "\<forall>d \<in> set d2. dec_msg_id d = key_msg_id k"
    using Cons.IH [of "Suc i" ?s1] by auto
  have "runKeyHandlers C now k i (h # hs) s =
          s\<lparr>keyCalls := keyCalls s @ map (\<lambda>j. (j, k)) [i..<i + length (h # hs)],
            decrypted := decrypted s @ (d1 @ d2)\<rparr>"
    using d1(1) d2(1) by (simp add: upt_conv_Cons del: upt_Suc)
  moreover have "length (d1 @ d2) \<le> length (h # hs)" using d1(2) d2(2) by simp
  moreover have "\<forall>d \<in> set (d1 @ d2). dec_msg_id d = key_msg_id k" using d1(3) d2(3) by auto
  ultimately show ?case by blast
qed

lemma fireKeyHandlers_frame:
  "\<exists>ds. fireKeyHandlers C now k s =
          s\<lparr>keyCalls := keyCalls s @ map (\<lambda>j. (j, k)) [0..<length (keyHandlers s)],
            decrypted := decrypted s @ ds\<rparr>
        \<and> length ds \<le> length (keyHandlers s) \<and> (\<forall>d \<in> set ds. dec_msg_id d = key_msg_id k)"
  using runKeyHandlers_frame [of C now k 0 "keyHandlers s" s]
  by (simp add: fireKeyHandlers_def)

text \<open>What one inbound message envelope does to the node, field by field.\<close>

lemma handleMessageEnvelope_duplicate:
  "isDuplicate (dedupe s) (msg_id m) \<Longrightarrow> handleMessageEnvelope C now m s = s"
  by (simp add: handleMessageEnvelope_def)

lemma handleMessageEnvelope_fresh:
  assumes "\<not> isDuplicate (dedupe s) (msg_id m)"
  shows "\<exists>ds. handleMessageEnvelope C now m s =
          s\<lparr>dedupe := markAsProcessed (dedupe s) (msg_id m),
            messageMesh := messageMesh s @ [m],
            messageCalls := messageCalls s @ map (\<lambda>j. (j, m)) [0..<length (messageHandlers s)],
            decrypted := decrypted s @ ds,
            sent := (if js_positive (msg_ttl m) \<and> wsOpen s
                     then sent s @ [MessageFrame (addHop (nodeId s) now m)] else sent s)\<rparr>
        \<and> length ds \<le> length (messageHandlers s) \<and> (\<forall>d \<in> set ds. dec_msg_id d = msg_id m)"
proof -
  let ?s2 = "saveMessageEnvelope m (s\<lparr>dedupe := markAsProcessed (dedupe s) (msg_id m)\<rparr>)"
  obtain ds where ds: "fireMessageHandlers C now m ?s2 =
          ?s2\<lparr>messageCalls := messageCalls ?s2 @ map (\<lambda>j. (j, m)) [0..<length (messageHandlers ?s2)],
            decrypted := decrypted ?s2 @ ds\<rparr>"
      "length ds \<le> length (messageHandlers ?s2)" "\<forall>d \<in> set ds. dec_msg_id d = msg_id m"
    using fireMessageHandlers_frame [of C now m ?s2] by auto
  have "handleMessageEnvelope C now m s =
          s\<lparr>dedupe := markAsProcessed (dedupe s) (msg_id m),
            messageMesh := messageMesh s @ [m],
            messageCalls := messageCalls s @ map (\<lambda>j. (j, m)) [0..<length (messageHandlers s)],
            decrypted := decrypted s @ ds,
            sent := (if js_positive (msg_ttl m) \<and> wsOpen s
                     then sent s @ [MessageFrame (addHop (nodeId s) now m)] else sent s)\<rparr>"
    using assms ds(1)
    by (simp add: handleMessageEnvelope_def Let_def forwardMessageEnvelope_def sendToServer_def
        saveMessageEnvelope_def)
  moreover have "length ds \<le> length (messageHandlers s)"
    using ds(2) by (simp add: saveMessageEnvelope_def)
  ultimately show ?thesis using ds(3) by blast
qed

lemma handleKeyEnvelope_duplicate:
  "isDuplicate (dedupe s) (key_msg_id k) \<Longrightarrow> handleKeyEnvelope C now k s = s"
  by (simp add: handleKeyEnvelope_def)

lemma handleKeyEnvelope_fresh:
  assumes "\<not> isDuplicate (dedupe s) (key_msg_id k)"
  shows "\<exists>ds. handleKeyEnvelope C now k s =
          s\<lparr>dedupe := markAsProcessed (dedupe s) (key_msg_id k),
            keyMesh := keyMesh s @ [k],
            keyCalls := keyCalls s @ map (\<lambda>j. (j, k)) [0..<length (keyHandlers s)],
            decrypted := decrypted s @ ds\<rparr>
        \<and> length ds \<le> length (keyHandlers s) \<and> (\<forall>d \<in> set ds. dec_msg_id d = key_msg_id k)"
proof -
  let ?s2 = "saveKeyEnvelope k (s\<lparr>dedupe := markAsProcessed (dedupe s) (key_msg_id k)\<rparr>)"
  obtain ds where ds: "fireKeyHandlers C now k ?s2 =
          ?s2\<lparr>keyCalls := keyCalls ?s2 @ map (\<lambda>j. (j, k)) [0..<length (keyHandlers ?s2)],
            decrypted := decrypted ?s2 @ ds\<rparr>"
      "length ds \<le> length (keyHandlers ?s2)" "\<forall>d \<in> set ds. dec_msg_id d = key_msg_id k"
    using fireKeyHandlers_frame [of C now k ?s2] by auto
  have "handleKeyEnvelope C now k s =
          s\<lparr>dedupe := markAsProcessed (dedupe s) (key_msg_id k),
            keyMesh := keyMesh s @ [k],
            keyCalls := keyCalls s @ map (\<lambda>j. (j, k)) [0..<length (keyHandlers s)],
            decrypted := decrypted s @ ds\<rparr>"
    using assms ds(1)
    by (simp add: handleKeyEnvelope_def Let_def saveKeyEnvelope_def)
  moreover have "length ds \<le> length (keyHandlers s)"
    using ds(2) by (simp add: saveKeyEnvelope_def)
  ultimately show ?thesis using ds(3) by blast
qed

lemma handleMessageEnvelope_marks:
  "isDuplicate (dedupe (handleMessageEnvelope C now m s)) (msg_id m)"
proof (cases "isDuplicate (dedupe s) (msg_id m)")
  case True
  then show ?thesis by (simp add: handleMessageEnvelope_duplicate)
next
  case False
  from handleMessageEnvelope_fresh [OF False, of C now]
  obtain ds where "handleMessageEnvelope C now m s =
          s\<lparr>dedupe := markAsProcessed (dedupe s) (msg_id m),
            messageMesh := messageMesh s @ [m],
            messageCalls := messageCalls s @ map (\<lambda>j. (j, m)) [0..<length (messageHandlers s)],
            decrypted := decrypted s @ ds,
            sent := (if js_positive (msg_ttl m) \<and> wsOpen s
                     then sent s @ [MessageFrame (addHop (nodeId s) now m)] else sent s)\<rparr>"
    by blast
  then show ?thesis by (simp add: isDuplicate_markAsProcessed)
qed

lemma handleKeyEnvelope_marks:
  "isDuplicate (dedupe (handleKeyEnvelope C now k s)) (key_msg_id k)"
proof (cases "isDuplicate (dedupe s) (key_msg_id k)")
  case True
  then show ?thesis by (simp add: handleKeyEnvelope_duplicate)
next
  case False
  from handleKeyEnvelope_fresh [OF False, of C now]
  obtain ds where "handleKeyEnvelope C now k s =
          s\<lparr>dedupe := markAsProcessed (dedupe s) (key_msg_id k),
            keyMesh := keyMesh s @ [k],
            keyCalls := keyCalls s @ map (\<lambda>j. (j, k)) [0..<length (keyHandlers s)],
            decrypted := decrypted s @ ds\<rparr>"
    by blast
  then show ?thesis by (simp add: isDuplicate_markAsProcessed)
qed

text \<open>
  The second envelope of a pair is a no-op: both handlers consult and mark the same
  store of ids, so whichever envelope of a msg_id comes second is dropped whole.
\<close>

lemma second_envelope_dropped:
  assumes "key_msg_id k = msg_id m"
  shows "handleKeyEnvelope C now' k (handleMessageEnvelope C now m s) = handleMessageEnvelope C now m s"
    and "handleMessageEnvelope C now' m (handleKeyEnvelope C now k s) = handleKeyEnvelope C now k s"
  using assms handleMessageEnvelope_marks [of C now m s] handleKeyEnvelope_marks [of C now k s]
  by (simp_all add: handleKeyEnvelope_duplicate handleMessageEnvelope_duplicate)

subsection \<open>The dedupe store of a node\<close>

lemma dedupe_fireMessageHandlers [simp]:
  "dedupe (fireMessageHandlers C now m s) = dedupe s"
proof -
  obtain ds where "fireMessageHandlers C now m s =
          s\<lparr>messageCalls := messageCalls s @ map (\<lambda>j. (j, m)) [0..<length (messageHandlers s)],
            decrypted := decrypted s @ ds\<rparr>"
    using fireMessageHandlers_frame by blast
  then show ?thesis by simp
qed

lemma dedupe_fireKeyHandlers [simp]:
  "dedupe (fireKeyHandlers C now k s) = dedupe s"
proof -
  obtain ds where "fireKeyHandlers C now k s =
          s\<lparr>keyCalls := keyCalls s @ map (\<lambda>j. (j, k)) [0..<length (keyHandlers s)],
            decrypted := decrypted s @ ds\<rparr>"
    using fireKeyHandlers_frame by blast
  then show ?thesis by simp
qed

lemma dedupe_handleMessageEnvelope:
  "dedupe (handleMessageEnvelope C now m s) =
     (if isDuplicate (dedupe s) (msg_id m) then dedupe s
      else markAsProcessed (dedupe s) (msg_id m))"
  by (simp add: handleMessageEnvelope_def Let_def forwardMessageEnvelope_def sendToServer_def
      saveMessageEnvelope_def)

lemma dedupe_handleKeyEnvelope:
  "dedupe (handleKeyEnvelope C now k s) =
     (if isDuplicate (dedupe s) (key_msg_id k) then dedupe s
      else markAsProcessed (dedupe s) (key_msg_id k))"
  by (simp add: handleKeyEnvelope_def Let_def saveKeyEnvelope_def)

lemma dedupe_broadcast [simp]:
  "dedupe (broadcastMessage C now m s) = dedupe s"
  "dedupe (broadcastKeyEnvelope C now k s) = dedupe s"
  by (simp_all add: broadcastMessage_def broadcastKeyEnvelope_def sendToServer_def
      saveMessageEnvelope_def saveKeyEnvelope_def)

lemma dedupe_discoverPeers [simp]: "dedupe (foldl discoverPeer s ps) = dedupe s"
  by (induction ps arbitrary: s) (simp_all add: discoverPeer_def)

lemma dedupe_createE2EMessage:
  "createE2EMessage C uuid sessionKey now content meta s = Inr r \<Longrightarrow> dedupe (fst r) = dedupe s"
  by (auto simp: createE2EMessage_def Let_def saveMessageEnvelope_def saveKeyEnvelope_def
      split: option.splits)

lemma dedupe_step_bounded:
  assumes "length (dedupe s) \<le> 1000"
  shows "length (dedupe (node_step C s e)) \<le> 1000"
proof -
  obtain now ev where e: "e = (now, ev)" by (cases e)
  show ?thesis
  proof (cases ev)
    case (SocketMessage frame)
    then show ?thesis using assms e
      by (cases frame)
         (simp_all add: node_step_def ws_onmessage_def discoverPeer_def losePeer_def
            dedupe_handleMessageEnvelope dedupe_handleKeyEnvelope markAsProcessed_length)
  next
    case (CreateBroadcast uuid content meta)
    then show ?thesis using assms e
      by (simp add: node_step_def createBroadcast_def Let_def saveBroadcast_def)
  next
    case (CreateE2EMessage uuid sessionKey content meta)
    then show ?thesis using assms e
      by (auto simp: node_step_def dedupe_createE2EMessage split: sum.splits)
  qed (use assms e in \<open>simp_all add: node_step_def ws_onopen_def ws_onerror_def ws_onclose_def
         Let_def newE2EService_def onMessage_def onKeyEnvelope_def saveAdminKeyPair_def
         onPeerDiscovered_def onPeerLost_def\<close>)
qed

lemma dedupe_run_bounded:
  "length (dedupe s) \<le> 1000 \<Longrightarrow> length (dedupe (node_run C s evs)) \<le> 1000"
  unfolding node_run_def
  by (induction evs arbitrary: s) (simp_all add: dedupe_step_bounded)

text \<open>
  C7. The dedupe store never holds more than 1,000 ids: from a store within the bound
  (the empty store in particular), \<^verbatim>\<open>markAsProcessed\<close> leaves a present id's store
  untouched, appends an absent id at the end, and when that makes 1,001 entries drops
  exactly the oldest one, the others keeping their order; any run of marks stays within
  the bound, and so does the store of a node after any run of events from a clean start.
\<close>

theorem markAsProcessed_bounded_fifo:
  assumes "length store \<le> 1000"
  shows "markAsProcessed store msgId =
           (if msgId \<in> set store then store
            else if length store < 1000 then store @ [msgId]
            else tl store @ [msgId])
         \<and> length (markAsProcessed store msgId) \<le> 1000
         \<and> length (markAll store ids) \<le> 1000
         \<and> length (markAll [] ids) \<le> 1000
         \<and> length (dedupe (node_run C (freshNode self) evs)) \<le> 1000"
proof -
  have "markAsProcessed store msgId =
           (if msgId \<in> set store then store
            else if length store < 1000 then store @ [msgId]
            else tl store @ [msgId])"
  proof (cases store)
    case Nil
    then show ?thesis by (simp add: markAsProcessed_def)
  next
    case (Cons a as)
    then show ?thesis using assms
      by (simp add: markAsProcessed_def Let_def)
  qed
  moreover have "length (markAsProcessed store msgId) \<le> 1000"
    using assms by (rule markAsProcessed_length)
  moreover have "length (markAll store ids) \<le> 1000"
    using assms by (rule markAll_length)
  moreover have "length (markAll [] ids) \<le> 1000"
    by (rule markAll_length) simp
  moreover have "length (dedupe (node_run C (freshNode self) evs)) \<le> 1000"
    by (rule dedupe_run_bounded) (simp add: freshNode_def)
  ultimately show ?thesis by blast
qed

theorem markAsProcessed_bounded_fifo_witness:
  "length (map (\<lambda>n. replicate (Suc n) CHR ''a'') [0..<1000]) \<le> 1000
   \<and> markAsProcessed (map (\<lambda>n. replicate (Suc n) CHR ''a'') [0..<1000]) ''b''
       = tl (map (\<lambda>n. replicate (Suc n) CHR ''a'') [0..<1000]) @ [''b'']
   \<and> length (markAsProcessed (map (\<lambda>n. replicate (Suc n) CHR ''a'') [0..<1000]) ''b'') \<le> 1000
   \<and> markAsProcessed [''m1'', ''m2''] ''m1'' = [''m1'', ''m2'']
   \<and> markAsProcessed [''m1'', ''m2''] ''m3'' = [''m1'', ''m2'', ''m3'']"
  using markAsProcessed_bounded_fifo
          [where store = "map (\<lambda>n. replicate (Suc n) CHR ''a'') [0..<1000]"
             and msgId = "''b''" and ids = "[]" and evs = "[]"]
        markAsProcessed_bounded_fifo
          [where store = "[''m1'', ''m2'']" and msgId = "''m1''" and ids = "[]" and evs = "[]"]
        markAsProcessed_bounded_fifo
          [where store = "[''m1'', ''m2'']" and msgId = "''m3''" and ids = "[]" and evs = "[]"]
  by auto

lemmas node_eval =
  ws_onmessage_def ws_onopen_def handleMessageEnvelope_def handleKeyEnvelope_def
  isDuplicate_def markAsProcessed_def freshNode_def newE2EService_def onMessage_def
  saveAdminKeyPair_def saveMessageEnvelope_def saveKeyEnvelope_def saveBroadcast_def
  saveDecryptedMessage_def fireMessageHandlers_def fireKeyHandlers_def
  callMessageHandler_def callKeyHandler_def e2eMessageListener_def e2eKeyListener_def
  tryDecryptMessage_def js_or_def truthy_def getMessageEnvelopeById_def
  getKeyEnvelopeById_def forwardMessageEnvelope_def sendToServer_def addHop_def
  broadcastMessage_def broadcastKeyEnvelope_def createBroadcast_def createE2EMessage_def
  createBroadcastMessage_def createE2EMessageEnvelope_def createKeyEnvelope_def
  getPseudoId_def DEFAULT_TTL_def discoverPeer_def losePeer_def notifyAll_def
  onPeerLost_def onPeerDiscovered_def modelCrypto_def js_positive_def Let_def

text \<open>
  C1. An admin node that receives both envelopes of one msg_id through the hub should
  produce one DecryptedMessage. It produces none: at admin node Z, with the message
  envelope of scenario S4 first and its key envelope second, the key envelope is dropped
  as a duplicate before it is stored, and the decrypted log stays empty; in the other
  order the message envelope is dropped. The crypto is not at fault: with both envelopes
  in the logs, one round of the key callbacks joins them and yields "evacuate".
\<close>

theorem admin_join_second_envelope_dropped:
  "decrypted (ws_onmessage modelCrypto ''t2'' (mesh_message_key k4)
               (ws_onmessage modelCrypto ''t1'' (mesh_message m4) nodeZ)) = []
   \<and> keyMesh (ws_onmessage modelCrypto ''t2'' (mesh_message_key k4)
               (ws_onmessage modelCrypto ''t1'' (mesh_message m4) nodeZ)) = []
   \<and> decrypted (ws_onmessage modelCrypto ''t2'' (mesh_message m4)
               (ws_onmessage modelCrypto ''t1'' (mesh_message_key k4) nodeZ)) = []
   \<and> messageMesh (ws_onmessage modelCrypto ''t2'' (mesh_message m4)
               (ws_onmessage modelCrypto ''t1'' (mesh_message_key k4) nodeZ)) = []
   \<and> map dec_content (decrypted (fireKeyHandlers modelCrypto ''t3'' k4
               (saveKeyEnvelope k4 (saveMessageEnvelope m4 nodeZ)))) = [''evacuate'']"
  by (simp add: node_eval nodeZ_def m4_def k4_def)

text \<open>
  C3. A node's message callbacks should fire at most once for a msg_id. Node A
  broadcasts m1 (its observer fires, and \<^verbatim>\<open>broadcastMessage\<close> marks nothing in the
  dedupe store); peer B forwards the envelope, the hub fans B's copy out to A, and A's
  observer fires a second time for m1, now with ttl 7.
\<close>

theorem own_message_returning_fires_handlers_again:
  "map (\<lambda>c. (fst c, msg_id (snd c), msg_ttl (snd c)))
     (messageCalls
        (ws_onmessage modelCrypto ''t2''
           (mesh_message (addHop ''00000000000000000000000000000002'' ''t1''
              (snd (createBroadcast modelCrypto ''m1'' ''t0'' ''hi'' None nodeA))))
           (fst (createBroadcast modelCrypto ''m1'' ''t0'' ''hi'' None nodeA))))
   = [(0, ''m1'', Num 8), (0, ''m1'', Num 7)]"
  by (simp add: node_eval nodeA_def)

text \<open>The reconnect schedule: a fixed delay, and no timer once ten attempts are spent.\<close>

lemma ws_onclose_schedule:
  "timers (ws_onclose s) =
     (if reconnectAttempts s < 10 then timers s @ [3000] else timers s)"
  "reconnectAttempts (ws_onclose s) =
     (if reconnectAttempts s < 10 then Suc (reconnectAttempts s) else reconnectAttempts s)"
  "reconnectAttempts (ws_onopen s) = 0"
  by (simp_all add: ws_onclose_def ws_onopen_def Let_def maxReconnectAttempts_def
      reconnectDelay_def)

text \<open>
  C6. When the hub connection closes, every peer-lost observer should be called once for
  every peer known before the loss. \<^verbatim>\<open>ws.onclose\<close> clears the peer set before it walks
  it, so no observer is ever called: the trace of peer-lost calls is unchanged for every
  node, and at node A, which knows peers b and c and has one observer, it stays empty.
  The peer set is cleared and a reconnect is scheduled after 3000 ms.
\<close>

theorem close_notifies_no_peer_lost_observer:
  "peerLostCalls (ws_onclose s) = peerLostCalls s
   \<and> peers (ws_onclose s) = []
   \<and> peers nodeA = [''b'', ''c''] \<and> peerLostHandlers nodeA = 1
   \<and> peerLostCalls (ws_onclose nodeA) = []
   \<and> timers (ws_onclose nodeA) = [3000]"
  by (simp add: ws_onclose_def Let_def maxReconnectAttempts_def reconnectDelay_def
      node_eval nodeA_def)

text \<open>
  C4, as stated, fails: the relay tests the ttl it received, before the decrement. Node A
  receives m3 with ttl 1, delivers it, and forwards a copy with ttl 0.
\<close>

theorem ttl_one_is_forwarded_counterexample:
  "msg_ttl m3 = Num 1
   \<and> sent (ws_onmessage modelCrypto ''t1'' (mesh_message m3) nodeA)
       = sent nodeA @ [MessageFrame (addHop (nodeId nodeA) ''t1'' m3)]
   \<and> msg_ttl (addHop (nodeId nodeA) ''t1'' m3) = Num 0"
  by (simp add: node_eval nodeA_def m3_def)

text \<open>
  C4, amended. An envelope whose msg_id is in the node's dedupe store (marked by a
  message or by a key envelope) is dropped whole. Any other envelope is handed once to
  every message callback, whatever its ttl, and a forwarded copy is re-emitted exactly
  when the received ttl is strictly positive and the hub socket is open; the test comes
  before the decrement. The copy carries the received ttl minus one, in double
  arithmetic. For a whole ttl from 1 to \<open>2 ^ 53\<close> that is exactly one less: never below
  zero and below the received one, so ttl 1 is delivered and forwarded with ttl 0, and a
  whole ttl of 0 or less is delivered and not forwarded. The ttl is not validated: a ttl
  of one half is forwarded with ttl minus one half.
\<close>

theorem forward_iff_received_ttl_positive:
  "(isDuplicate (dedupe s) (msg_id m) \<longrightarrow> handleMessageEnvelope C now m s = s)
   \<and> sent (handleMessageEnvelope C now m s) =
     (if \<not> isDuplicate (dedupe s) (msg_id m) \<and> js_positive (msg_ttl m) \<and> wsOpen s
      then sent s @ [MessageFrame (addHop (nodeId s) now m)] else sent s)
   \<and> messageCalls (handleMessageEnvelope C now m s) =
     (if \<not> isDuplicate (dedupe s) (msg_id m)
      then messageCalls s @ map (\<lambda>j. (j, m)) [0..<length (messageHandlers s)]
      else messageCalls s)
   \<and> msg_ttl (addHop self now m) = js_minus_one (msg_ttl m)
   \<and> (1 \<le> n \<and> n \<le> 2 ^ 53 \<and> msg_ttl m = Num (of_int n) \<longrightarrow>
        js_positive (msg_ttl m) \<and> msg_ttl (addHop self now m) = Num (of_int (n - 1)))
   \<and> (n \<le> 0 \<and> msg_ttl m = Num (of_int n) \<longrightarrow> \<not> js_positive (msg_ttl m))
   \<and> (msg_ttl m = Num (1 / 2) \<longrightarrow>
        js_positive (msg_ttl m) \<and> msg_ttl (addHop self now m) = Num (- (1 / 2)))"
proof -
  have ttl: "msg_ttl (addHop self now m) = js_minus_one (msg_ttl m)"
    by (simp add: addHop_def)
  have whole: "js_positive (msg_ttl m) \<and> msg_ttl (addHop self now m) = Num (of_int (n - 1))"
    if "1 \<le> n" "n \<le> 2 ^ 53" "msg_ttl m = Num (of_int n)"
    using that js_minus_one_integer [OF that(1,2)] by (simp add: ttl js_positive_def)
  have nonpos: "\<not> js_positive (msg_ttl m)" if "n \<le> 0" "msg_ttl m = Num (of_int n)"
    using that by (simp add: js_positive_def)
  have half: "js_positive (msg_ttl m) \<and> msg_ttl (addHop self now m) = Num (- (1 / 2))"
    if "msg_ttl m = Num (1 / 2)"
    using that by (simp add: ttl js_positive_def)
  have handled: "(isDuplicate (dedupe s) (msg_id m) \<longrightarrow> handleMessageEnvelope C now m s = s)
   \<and> sent (handleMessageEnvelope C now m s) =
     (if \<not> isDuplicate (dedupe s) (msg_id m) \<and> js_positive (msg_ttl m) \<and> wsOpen s
      then sent s @ [MessageFrame (addHop (nodeId s) now m)] else sent s)
   \<and> messageCalls (handleMessageEnvelope C now m s) =
     (if \<not> isDuplicate (dedupe s) (msg_id m)
      then messageCalls s @ map (\<lambda>j. (j, m)) [0..<length (messageHandlers s)]
      else messageCalls s)"
  proof (cases "isDuplicate (dedupe s) (msg_id m)")
    case True
    then show ?thesis by (simp add: handleMessageEnvelope_duplicate)
  next
    case False
    from handleMessageEnvelope_fresh [OF False, of C now]
    obtain ds where "handleMessageEnvelope C now m s =
          s\<lparr>dedupe := markAsProcessed (dedupe s) (msg_id m),
            messageMesh := messageMesh s @ [m],
            messageCalls := messageCalls s @ map (\<lambda>j. (j, m)) [0..<length (messageHandlers s)],
            decrypted := decrypted s @ ds,
            sent := (if js_positive (msg_ttl m) \<and> wsOpen s
                     then sent s @ [MessageFrame (addHop (nodeId s) now m)] else sent s)\<rparr>"
      by blast
    then show ?thesis using False by simp
  qed
  show ?thesis using handled ttl whole nonpos half by blast
qed

theorem forward_iff_received_ttl_positive_witness:
  "sent (handleMessageEnvelope modelCrypto ''t1'' m3 nodeA) =
      sent nodeA @ [MessageFrame (addHop (nodeId nodeA) ''t1'' m3)]
   \<and> msg_ttl (addHop (nodeId nodeA) ''t1'' m3) = Num 0
   \<and> sent (handleMessageEnvelope modelCrypto ''t2'' (addHop (nodeId nodeA) ''t1'' m3) nodeA)
       = sent nodeA
   \<and> map fst (messageCalls
        (handleMessageEnvelope modelCrypto ''t2'' (addHop (nodeId nodeA) ''t1'' m3) nodeA)) = [0]
   \<and> handleMessageEnvelope modelCrypto ''t2'' m3
        (handleKeyEnvelope modelCrypto ''t1'' (k4\<lparr>key_msg_id := ''m3''\<rparr>) nodeA)
       = handleKeyEnvelope modelCrypto ''t1'' (k4\<lparr>key_msg_id := ''m3''\<rparr>) nodeA
   \<and> msg_ttl (addHop (nodeId nodeA) ''t1'' (m3\<lparr>msg_ttl := Num (1 / 2)\<rparr>)) = Num (- (1 / 2))"
proof -
  let ?m0 = "addHop (nodeId nodeA) ''t1'' m3"
  let ?sk = "handleKeyEnvelope modelCrypto ''t1'' (k4\<lparr>key_msg_id := ''m3''\<rparr>) nodeA"
  have a: "\<not> isDuplicate (dedupe nodeA) (msg_id m3)" "wsOpen nodeA"
      "\<not> isDuplicate (dedupe nodeA) (msg_id ?m0)"
      "messageHandlers nodeA = [Observer]" "messageCalls nodeA = []"
    by (simp_all add: node_eval nodeA_def m3_def)
  have t1: "(1::int) \<le> 1 \<and> (1::int) \<le> 2 ^ 53 \<and> msg_ttl m3 = Num (of_int 1)"
    by (simp add: m3_def)
  have t0: "(0::int) \<le> 0 \<and> msg_ttl ?m0 = Num (of_int 0)"
    by (simp add: m3_def addHop_def)
  have th: "msg_ttl (m3\<lparr>msg_ttl := Num (1 / 2)\<rparr>) = Num (1 / 2)"
    by simp
  have dup: "isDuplicate (dedupe ?sk) (msg_id m3)"
    using handleKeyEnvelope_marks [of modelCrypto "''t1''" "k4\<lparr>key_msg_id := ''m3''\<rparr>" nodeA]
    by (simp add: m3_def)
  note w1 = forward_iff_received_ttl_positive
      [where C = modelCrypto and now = "''t1''" and m = m3 and s = nodeA
         and self = "nodeId nodeA" and n = 1]
  note w0 = forward_iff_received_ttl_positive
      [where C = modelCrypto and now = "''t2''" and m = ?m0 and s = nodeA
         and self = "nodeId nodeA" and n = 0]
  note wd = forward_iff_received_ttl_positive
      [where C = modelCrypto and now = "''t2''" and m = m3 and s = ?sk
         and self = "nodeId nodeA" and n = 1]
  note wh = forward_iff_received_ttl_positive
      [where C = modelCrypto and now = "''t1''" and m = "m3\<lparr>msg_ttl := Num (1 / 2)\<rparr>"
         and s = nodeA and self = "nodeId nodeA" and n = 1]
  have p1: "js_positive (msg_ttl m3)" "msg_ttl ?m0 = Num (of_int (1 - 1))"
    using w1 t1 by blast+
  have p0: "\<not> js_positive (msg_ttl ?m0)"
    using w0 t0 by blast
  have "sent (handleMessageEnvelope modelCrypto ''t1'' m3 nodeA) =
      sent nodeA @ [MessageFrame ?m0]"
    using w1 [THEN conjunct2, THEN conjunct1] a(1,2) p1(1) by simp
  moreover have "msg_ttl ?m0 = Num 0" using p1(2) by simp
  moreover have "sent (handleMessageEnvelope modelCrypto ''t2'' ?m0 nodeA) = sent nodeA"
    using w0 [THEN conjunct2, THEN conjunct1] p0 by simp
  moreover have "map fst (messageCalls (handleMessageEnvelope modelCrypto ''t2'' ?m0 nodeA)) = [0]"
    using w0 [THEN conjunct2, THEN conjunct2, THEN conjunct1] a(3,4,5) by simp
  moreover have "handleMessageEnvelope modelCrypto ''t2'' m3 ?sk = ?sk"
    using wd [THEN conjunct1] dup by blast
  moreover have "msg_ttl (addHop (nodeId nodeA) ''t1'' (m3\<lparr>msg_ttl := Num (1 / 2)\<rparr>))
        = Num (- (1 / 2))"
    using wh th by blast
  ultimately show ?thesis by blast
qed

text \<open>
  C10. A successful \<^verbatim>\<open>createE2EMessage\<close> leaves two copies of the new message envelope
  at the end of the messageMesh log and two copies of the new key envelope at the end of
  the keyMesh log (its own save, then the save inside \<^verbatim>\<open>broadcastMessage\<close> and
  \<^verbatim>\<open>broadcastKeyEnvelope\<close>), and the dedupe store is what it was: the id is not marked.
\<close>

theorem createE2EMessage_saves_each_envelope_twice:
  assumes "createE2EMessage C uuid sessionKey now content meta s = Inr (s', messageEnvelope, keyEnvelope)"
  shows "messageMesh s' = messageMesh s @ [messageEnvelope, messageEnvelope]
       \<and> keyMesh s' = keyMesh s @ [keyEnvelope, keyEnvelope]
       \<and> dedupe s' = dedupe s
       \<and> (\<not> isDuplicate (dedupe s) uuid \<longrightarrow> \<not> isDuplicate (dedupe s') uuid)
       \<and> msg_id messageEnvelope = uuid \<and> key_msg_id keyEnvelope = uuid"
proof -
  obtain adminPub encryptedPayload wrappedKey where
    ok: "truthy (adminPublicKey s) = Some adminPub"
        "encryptMessage C content sessionKey = Some encryptedPayload"
        "wrapSessionKey C sessionKey adminPub = Some wrappedKey"
    using assms by (auto simp: createE2EMessage_def Let_def split: option.splits)
  define me where "me = createE2EMessageEnvelope uuid now encryptedPayload meta s"
  define ke where "ke = createKeyEnvelope (msg_id me) wrappedKey s"
  define s2 where "s2 = saveKeyEnvelope ke (saveMessageEnvelope me s)"
  define s3 where "s3 = saveMessageEnvelope me s2"
  define s4 where "s4 = fireMessageHandlers C now me s3"
  define s5 where "s5 = saveKeyEnvelope ke (sendToServer (MessageFrame me) s4)"
  define s6 where "s6 = fireKeyHandlers C now ke s5"
  have res: "s' = sendToServer (KeyFrame ke) s6" "messageEnvelope = me" "keyEnvelope = ke"
    using assms ok
    by (auto simp: createE2EMessage_def Let_def broadcastMessage_def broadcastKeyEnvelope_def
        me_def ke_def s2_def s3_def s4_def s5_def s6_def)
  obtain d1 where d1: "s4 = s3\<lparr>messageCalls := messageCalls s3 @ map (\<lambda>j. (j, me)) [0..<length (messageHandlers s3)],
            decrypted := decrypted s3 @ d1\<rparr>"
    using fireMessageHandlers_frame [of C now me s3] unfolding s4_def by blast
  obtain d2 where d2: "s6 = s5\<lparr>keyCalls := keyCalls s5 @ map (\<lambda>j. (j, ke)) [0..<length (keyHandlers s5)],
            decrypted := decrypted s5 @ d2\<rparr>"
    using fireKeyHandlers_frame [of C now ke s5] unfolding s6_def by blast
  have "messageMesh s' = messageMesh s @ [me, me]"
    unfolding res(1) d2 s5_def d1 s3_def s2_def
    by (simp add: sendToServer_def saveKeyEnvelope_def saveMessageEnvelope_def)
  moreover have "keyMesh s' = keyMesh s @ [ke, ke]"
    unfolding res(1) d2 s5_def d1 s3_def s2_def
    by (simp add: sendToServer_def saveKeyEnvelope_def saveMessageEnvelope_def)
  moreover have "dedupe s' = dedupe s"
    unfolding res(1) d2 s5_def d1 s3_def s2_def
    by (simp add: sendToServer_def saveKeyEnvelope_def saveMessageEnvelope_def)
  moreover have "msg_id me = uuid" "key_msg_id ke = uuid"
    by (simp_all add: me_def ke_def createE2EMessageEnvelope_def createKeyEnvelope_def)
  ultimately show ?thesis using res(2,3) by simp
qed

theorem createE2EMessage_saves_each_envelope_twice_witness:
  "(case createE2EMessage modelCrypto ''m5'' ''K'' ''t0'' ''evacuate'' None nodeZ of
      Inl err \<Rightarrow> False
    | Inr (s', messageEnvelope, keyEnvelope) \<Rightarrow>
        messageMesh s' = [messageEnvelope, messageEnvelope]
        \<and> keyMesh s' = [keyEnvelope, keyEnvelope]
        \<and> dedupe s' = [] \<and> \<not> isDuplicate (dedupe s') ''m5''
        \<and> msg_id messageEnvelope = ''m5'' \<and> key_msg_id keyEnvelope = ''m5'')"
proof -
  obtain s' me ke where r:
    "createE2EMessage modelCrypto ''m5'' ''K'' ''t0'' ''evacuate'' None nodeZ = Inr (s', me, ke)"
    by (simp add: createE2EMessage_def truthy_def nodeZ_def ws_onopen_def newE2EService_def
        saveAdminKeyPair_def freshNode_def modelCrypto_def Let_def)
  have z: "messageMesh nodeZ = []" "keyMesh nodeZ = []" "dedupe nodeZ = []"
    by (simp_all add: nodeZ_def ws_onopen_def newE2EService_def saveAdminKeyPair_def freshNode_def)
  show ?thesis
    using createE2EMessage_saves_each_envelope_twice [OF r] r z
    by (simp add: isDuplicate_def)
qed

subsection \<open>Joins and callback invocations\<close>

text \<open>
  Every operation of the node keeps the number of DecryptedMessages of an id within the
  number of callback invocations made for that id.
\<close>

lemma joins_calls_same:
  assumes "decrypted s' = decrypted s" "messageCalls s' = messageCalls s" "keyCalls s' = keyCalls s"
  shows "joinsOf x s' = joinsOf x s" "callsOf x s' = callsOf x s"
  using assms by (simp_all add: joinsOf_def callsOf_def)

lemma joins_le_calls_fireMessageHandlers:
  assumes "joinsOf x s \<le> callsOf x s"
  shows "joinsOf x (fireMessageHandlers C now m s) \<le> callsOf x (fireMessageHandlers C now m s)"
proof -
  obtain ds where ds: "fireMessageHandlers C now m s =
          s\<lparr>messageCalls := messageCalls s @ map (\<lambda>j. (j, m)) [0..<length (messageHandlers s)],
            decrypted := decrypted s @ ds\<rparr>"
      "length ds \<le> length (messageHandlers s)" "\<forall>d \<in> set ds. dec_msg_id d = msg_id m"
    using fireMessageHandlers_frame by blast
  show ?thesis
  proof (cases "msg_id m = x")
    case True
    have "length (filter (\<lambda>d. dec_msg_id d = x) ds) \<le> length (messageHandlers s)"
      using ds(2) length_filter_le [of "\<lambda>d. dec_msg_id d = x" ds] by linarith
    then show ?thesis using assms True
      by (simp add: ds(1) joinsOf_def callsOf_def)
  next
    case False
    then have "filter (\<lambda>d. dec_msg_id d = x) ds = []"
      using ds(3) by (auto simp: filter_empty_conv)
    then show ?thesis using assms False
      by (simp add: ds(1) joinsOf_def callsOf_def)
  qed
qed

lemma joins_le_calls_fireKeyHandlers:
  assumes "joinsOf x s \<le> callsOf x s"
  shows "joinsOf x (fireKeyHandlers C now k s) \<le> callsOf x (fireKeyHandlers C now k s)"
proof -
  obtain ds where ds: "fireKeyHandlers C now k s =
          s\<lparr>keyCalls := keyCalls s @ map (\<lambda>j. (j, k)) [0..<length (keyHandlers s)],
            decrypted := decrypted s @ ds\<rparr>"
      "length ds \<le> length (keyHandlers s)" "\<forall>d \<in> set ds. dec_msg_id d = key_msg_id k"
    using fireKeyHandlers_frame by blast
  show ?thesis
  proof (cases "key_msg_id k = x")
    case True
    have "length (filter (\<lambda>d. dec_msg_id d = x) ds) \<le> length (keyHandlers s)"
      using ds(2) length_filter_le [of "\<lambda>d. dec_msg_id d = x" ds] by linarith
    then show ?thesis using assms True
      by (simp add: ds(1) joinsOf_def callsOf_def)
  next
    case False
    then have "filter (\<lambda>d. dec_msg_id d = x) ds = []"
      using ds(3) by (auto simp: filter_empty_conv)
    then show ?thesis using assms False
      by (simp add: ds(1) joinsOf_def callsOf_def)
  qed
qed

lemma joins_le_calls_update:
  "joinsOf x (saveMessageEnvelope m s) = joinsOf x s"
  "callsOf x (saveMessageEnvelope m s) = callsOf x s"
  "joinsOf x (saveKeyEnvelope k s) = joinsOf x s"
  "callsOf x (saveKeyEnvelope k s) = callsOf x s"
  "joinsOf x (saveBroadcast m s) = joinsOf x s"
  "callsOf x (saveBroadcast m s) = callsOf x s"
  "joinsOf x (sendToServer f s) = joinsOf x s"
  "callsOf x (sendToServer f s) = callsOf x s"
  "joinsOf x (s\<lparr>dedupe := d\<rparr>) = joinsOf x s"
  "callsOf x (s\<lparr>dedupe := d\<rparr>) = callsOf x s"
  "joinsOf x (discoverPeer s p) = joinsOf x s"
  "callsOf x (discoverPeer s p) = callsOf x s"
  "joinsOf x (losePeer s p) = joinsOf x s"
  "callsOf x (losePeer s p) = callsOf x s"
  by (simp_all add: joinsOf_def callsOf_def saveMessageEnvelope_def saveKeyEnvelope_def
      saveBroadcast_def sendToServer_def discoverPeer_def losePeer_def)

lemma joins_calls_discoverPeers:
  "joinsOf x (foldl discoverPeer s ps) = joinsOf x s \<and> callsOf x (foldl discoverPeer s ps) = callsOf x s"
  by (induction ps arbitrary: s) (simp_all add: joins_le_calls_update)

lemma joins_le_calls_broadcastMessage:
  "joinsOf x s \<le> callsOf x s \<Longrightarrow>
   joinsOf x (broadcastMessage C now m s) \<le> callsOf x (broadcastMessage C now m s)"
  unfolding broadcastMessage_def
  by (simp add: joins_le_calls_update joins_le_calls_fireMessageHandlers)

lemma joins_le_calls_broadcastKeyEnvelope:
  "joinsOf x s \<le> callsOf x s \<Longrightarrow>
   joinsOf x (broadcastKeyEnvelope C now k s) \<le> callsOf x (broadcastKeyEnvelope C now k s)"
  unfolding broadcastKeyEnvelope_def
  by (simp add: joins_le_calls_update joins_le_calls_fireKeyHandlers)

lemma joins_le_calls_handleMessageEnvelope:
  "joinsOf x s \<le> callsOf x s \<Longrightarrow>
   joinsOf x (handleMessageEnvelope C now m s) \<le> callsOf x (handleMessageEnvelope C now m s)"
  unfolding handleMessageEnvelope_def Let_def forwardMessageEnvelope_def
  by (simp add: joins_le_calls_update joins_le_calls_fireMessageHandlers)

lemma joins_le_calls_handleKeyEnvelope:
  "joinsOf x s \<le> callsOf x s \<Longrightarrow>
   joinsOf x (handleKeyEnvelope C now k s) \<le> callsOf x (handleKeyEnvelope C now k s)"
  unfolding handleKeyEnvelope_def Let_def
  by (simp add: joins_le_calls_update joins_le_calls_fireKeyHandlers)

lemma joins_le_calls_createE2EMessage:
  assumes "joinsOf x s \<le> callsOf x s"
      and "createE2EMessage C uuid sessionKey now content meta s = Inr r"
  shows "joinsOf x (fst r) \<le> callsOf x (fst r)"
proof -
  obtain m k where "fst r = broadcastKeyEnvelope C now k
        (broadcastMessage C now m (saveKeyEnvelope k (saveMessageEnvelope m s)))"
    using assms(2) by (auto simp: createE2EMessage_def Let_def split: option.splits)
  then show ?thesis
    using assms(1)
    by (simp add: joins_le_calls_broadcastKeyEnvelope joins_le_calls_broadcastMessage
        joins_le_calls_update)
qed

lemma joins_le_calls_step:
  assumes "joinsOf x s \<le> callsOf x s"
  shows "joinsOf x (node_step C s e) \<le> callsOf x (node_step C s e)"
proof -
  obtain now ev where e: "e = (now, ev)" by (cases e)
  show ?thesis
  proof (cases ev)
    case (SocketMessage frame)
    then show ?thesis using assms e
      by (cases frame)
         (simp_all add: node_step_def ws_onmessage_def joins_calls_discoverPeers
            joins_le_calls_update joins_le_calls_handleMessageEnvelope
            joins_le_calls_handleKeyEnvelope)
  next
    case (CreateBroadcast uuid content meta)
    then show ?thesis using assms e
      by (simp add: node_step_def createBroadcast_def Let_def joins_le_calls_broadcastMessage
          joins_le_calls_update)
  next
    case (CreateE2EMessage uuid sessionKey content meta)
    then show ?thesis using assms e joins_le_calls_createE2EMessage [OF assms]
      by (simp add: node_step_def split: sum.splits)
  qed (use assms e in \<open>simp_all add: node_step_def ws_onopen_def ws_onerror_def ws_onclose_def
         Let_def newE2EService_def onMessage_def onKeyEnvelope_def saveAdminKeyPair_def
         onPeerDiscovered_def onPeerLost_def joinsOf_def callsOf_def\<close>)
qed

lemma joins_le_calls_run:
  "joinsOf x s \<le> callsOf x s \<Longrightarrow> joinsOf x (node_run C s evs) \<le> callsOf x (node_run C s evs)"
  unfolding node_run_def
  by (induction evs arbitrary: s) (simp_all add: joins_le_calls_step)

text \<open>
  A call that finds both envelopes of its id in the logs, of type e2e and addressed to
  admin, and opens them with the admin key, appends one DecryptedMessage, whatever the
  decrypted log already holds; so do repeated calls, and so does every E2EService callback
  of a round of callbacks.
\<close>

lemma tryDecryptMessage_success:
  assumes "js_or (map_option msg_id mo) (map_option key_msg_id ko) = Some x"
      and "getMessageEnvelopeById s x = Some sm" "getKeyEnvelopeById s x = Some sk"
      and "msg_type sm = e2e" "key_to sk = ''admin''"
      and "truthy (adminPrivateKey s) = Some priv"
      and "unwrapSessionKey C (key_wrapped_key sk) priv = Some key"
      and "decryptMessage C (msg_payload sm) key = Some content"
  shows "tryDecryptMessage C now mo ko s =
           s\<lparr>decrypted := decrypted s @
              [\<lparr>dec_msg_id = x, dec_content = content, dec_image = None,
                dec_timestamp = msg_timestamp sm, dec_from = msg_from sm,
                dec_meta = msg_meta sm, dec_messagePath = msg_hops sm,
                dec_keyPath = [\<lparr>hop_nodeId = key_from sk, hop_timestamp = now\<rparr>]\<rparr>]\<rparr>"
proof -
  have "\<not> (mo = None \<and> ko = None)"
  proof
    assume "mo = None \<and> ko = None"
    then have "js_or (map_option msg_id mo) (map_option key_msg_id ko) = None"
      by (simp add: js_or_def truthy_def)
    with assms(1) show False by simp
  qed
  then show ?thesis
    using assms by (simp add: tryDecryptMessage_def saveDecryptedMessage_def)
qed

lemma lookup_ignores_traces [simp]:
  "getMessageEnvelopeById (s\<lparr>decrypted := ds\<rparr>) x = getMessageEnvelopeById s x"
  "getKeyEnvelopeById (s\<lparr>decrypted := ds\<rparr>) x = getKeyEnvelopeById s x"
  "getMessageEnvelopeById (s\<lparr>keyCalls := kc\<rparr>) x = getMessageEnvelopeById s x"
  "getKeyEnvelopeById (s\<lparr>keyCalls := kc\<rparr>) x = getKeyEnvelopeById s x"
  "getMessageEnvelopeById (s\<lparr>messageCalls := mc\<rparr>) x = getMessageEnvelopeById s x"
  "getKeyEnvelopeById (s\<lparr>messageCalls := mc\<rparr>) x = getKeyEnvelopeById s x"
  by (simp_all add: getMessageEnvelopeById_def getKeyEnvelopeById_def)

lemma tryDecryptMessage_repeated:
  assumes "js_or (map_option msg_id mo) (map_option key_msg_id ko) = Some x"
      and "getMessageEnvelopeById s x = Some sm" "getKeyEnvelopeById s x = Some sk"
      and "msg_type sm = e2e" "key_to sk = ''admin''"
      and "truthy (adminPrivateKey s) = Some priv"
      and "unwrapSessionKey C (key_wrapped_key sk) priv = Some key"
      and "decryptMessage C (msg_payload sm) key = Some content"
  shows "((tryDecryptMessage C now mo ko) ^^ n) s =
           s\<lparr>decrypted := decrypted s @ replicate n
              \<lparr>dec_msg_id = x, dec_content = content, dec_image = None,
               dec_timestamp = msg_timestamp sm, dec_from = msg_from sm,
               dec_meta = msg_meta sm, dec_messagePath = msg_hops sm,
               dec_keyPath = [\<lparr>hop_nodeId = key_from sk, hop_timestamp = now\<rparr>]\<rparr>\<rparr>"
proof (induction n)
  case 0
  show ?case by simp
next
  case (Suc n)
  let ?D = "\<lparr>dec_msg_id = x, dec_content = content, dec_image = None,
               dec_timestamp = msg_timestamp sm, dec_from = msg_from sm,
               dec_meta = msg_meta sm, dec_messagePath = msg_hops sm,
               dec_keyPath = [\<lparr>hop_nodeId = key_from sk, hop_timestamp = now\<rparr>]\<rparr>"
  let ?s = "s\<lparr>decrypted := decrypted s @ replicate n ?D\<rparr>"
  have "tryDecryptMessage C now mo ko ?s = ?s\<lparr>decrypted := decrypted ?s @ [?D]\<rparr>"
    by (rule tryDecryptMessage_success [OF assms(1)]) (use assms in simp_all)
  then show ?case
    using Suc.IH by (simp add: replicate_append_same)
qed

lemma runKeyHandlers_success:
  assumes "key_msg_id k = x" "x \<noteq> []" "adminMode s"
      and "getMessageEnvelopeById s x = Some sm" "getKeyEnvelopeById s x = Some sk"
      and "msg_type sm = e2e" "key_to sk = ''admin''"
      and "truthy (adminPrivateKey s) = Some priv"
      and "unwrapSessionKey C (key_wrapped_key sk) priv = Some key"
      and "decryptMessage C (msg_payload sm) key = Some content"
  shows "runKeyHandlers C now k i hs s =
           s\<lparr>keyCalls := keyCalls s @ map (\<lambda>j. (j, k)) [i..<i + length hs],
             decrypted := decrypted s @ replicate (count_list hs E2EListener)
              \<lparr>dec_msg_id = x, dec_content = content, dec_image = None,
               dec_timestamp = msg_timestamp sm, dec_from = msg_from sm,
               dec_meta = msg_meta sm, dec_messagePath = msg_hops sm,
               dec_keyPath = [\<lparr>hop_nodeId = key_from sk, hop_timestamp = now\<rparr>]\<rparr>\<rparr>"
  using assms(3-)
proof (induction hs arbitrary: i s)
  case Nil
  show ?case by simp
next
  case (Cons h hs)
  let ?D = "\<lparr>dec_msg_id = x, dec_content = content, dec_image = None,
               dec_timestamp = msg_timestamp sm, dec_from = msg_from sm,
               dec_meta = msg_meta sm, dec_messagePath = msg_hops sm,
               dec_keyPath = [\<lparr>hop_nodeId = key_from sk, hop_timestamp = now\<rparr>]\<rparr>"
  let ?s0 = "s\<lparr>keyCalls := keyCalls s @ [(i, k)]\<rparr>"
  have js: "js_or (map_option msg_id None) (map_option key_msg_id (Some k)) = Some x"
    using assms(1,2) by (simp add: js_or_def truthy_def)
  have one: "callKeyHandler C now k i h s =
      ?s0\<lparr>decrypted := decrypted s @ replicate (count_list [h] E2EListener) ?D\<rparr>"
  proof (cases h)
    case E2EListener
    have "tryDecryptMessage C now None (Some k) ?s0 = ?s0\<lparr>decrypted := decrypted ?s0 @ [?D]\<rparr>"
      by (rule tryDecryptMessage_success [OF js]) (use Cons.prems in simp_all)
    then show ?thesis using E2EListener Cons.prems(1)
      by (simp add: callKeyHandler_def e2eKeyListener_def)
  next
    case Observer
    then show ?thesis by (simp add: callKeyHandler_def)
  qed
  let ?s1 = "?s0\<lparr>decrypted := decrypted s @ replicate (count_list [h] E2EListener) ?D\<rparr>"
  have "runKeyHandlers C now k (Suc i) hs ?s1 =
      ?s1\<lparr>keyCalls := keyCalls ?s1 @ map (\<lambda>j. (j, k)) [Suc i..<Suc i + length hs],
           decrypted := decrypted ?s1 @ replicate (count_list hs E2EListener) ?D\<rparr>"
    by (rule Cons.IH) (use Cons.prems in simp_all)
  then show ?case
    using one by (simp add: upt_conv_Cons replicate_add [symmetric] del: upt_Suc)
qed

lemma runMessageHandlers_success:
  assumes "msg_id m = x" "x \<noteq> []" "msg_type m = e2e" "adminMode s"
      and "getMessageEnvelopeById s x = Some sm" "getKeyEnvelopeById s x = Some sk"
      and "msg_type sm = e2e" "key_to sk = ''admin''"
      and "truthy (adminPrivateKey s) = Some priv"
      and "unwrapSessionKey C (key_wrapped_key sk) priv = Some key"
      and "decryptMessage C (msg_payload sm) key = Some content"
  shows "runMessageHandlers C now m i hs s =
           s\<lparr>messageCalls := messageCalls s @ map (\<lambda>j. (j, m)) [i..<i + length hs],
             decrypted := decrypted s @ replicate (count_list hs E2EListener)
              \<lparr>dec_msg_id = x, dec_content = content, dec_image = None,
               dec_timestamp = msg_timestamp sm, dec_from = msg_from sm,
               dec_meta = msg_meta sm, dec_messagePath = msg_hops sm,
               dec_keyPath = [\<lparr>hop_nodeId = key_from sk, hop_timestamp = now\<rparr>]\<rparr>\<rparr>"
  using assms(4-)
proof (induction hs arbitrary: i s)
  case Nil
  show ?case by simp
next
  case (Cons h hs)
  let ?D = "\<lparr>dec_msg_id = x, dec_content = content, dec_image = None,
               dec_timestamp = msg_timestamp sm, dec_from = msg_from sm,
               dec_meta = msg_meta sm, dec_messagePath = msg_hops sm,
               dec_keyPath = [\<lparr>hop_nodeId = key_from sk, hop_timestamp = now\<rparr>]\<rparr>"
  let ?s0 = "s\<lparr>messageCalls := messageCalls s @ [(i, m)]\<rparr>"
  have js: "js_or (map_option msg_id (Some m)) (map_option key_msg_id None) = Some x"
    using assms(1,2) by (simp add: js_or_def truthy_def)
  have one: "callMessageHandler C now m i h s =
      ?s0\<lparr>decrypted := decrypted s @ replicate (count_list [h] E2EListener) ?D\<rparr>"
  proof (cases h)
    case E2EListener
    have "tryDecryptMessage C now (Some m) None ?s0 = ?s0\<lparr>decrypted := decrypted ?s0 @ [?D]\<rparr>"
      by (rule tryDecryptMessage_success [OF js]) (use Cons.prems in simp_all)
    then show ?thesis using E2EListener Cons.prems(1) assms(3)
      by (simp add: callMessageHandler_def e2eMessageListener_def)
  next
    case Observer
    then show ?thesis by (simp add: callMessageHandler_def)
  qed
  let ?s1 = "?s0\<lparr>decrypted := decrypted s @ replicate (count_list [h] E2EListener) ?D\<rparr>"
  have "runMessageHandlers C now m (Suc i) hs ?s1 =
      ?s1\<lparr>messageCalls := messageCalls ?s1 @ map (\<lambda>j. (j, m)) [Suc i..<Suc i + length hs],
           decrypted := decrypted ?s1 @ replicate (count_list hs E2EListener) ?D\<rparr>"
    by (rule Cons.IH) (use Cons.prems in simp_all)
  then show ?case
    using one by (simp add: upt_conv_Cons replicate_add [symmetric] del: upt_Suc)
qed

lemma joinsOf_append_replicate:
  "dec_msg_id D = x \<Longrightarrow> joinsOf x (s\<lparr>decrypted := decrypted s @ replicate n D\<rparr>) = joinsOf x s + n"
  by (simp add: joinsOf_def)

text \<open>
  C2, as stated, fails: nothing suppresses a second successful join. On an admin node
  with one \<^verbatim>\<open>E2EService\<close>, \<^verbatim>\<open>createE2EMessage\<close> fires the message callback and then
  the key callback, both find both envelopes in the logs, and the decrypted log holds two
  DecryptedMessages of the same msg_id.
\<close>

theorem repeated_join_stored_twice_counterexample:
  "map dec_msg_id (decrypted (node_run modelCrypto (freshNode ''000000000000000000000000000000ff'')
        [(''t0'', InitializeAdminMode ''A'' ''A''), (''t0'', NewE2EService), (''t0'', SocketOpen),
         (''t1'', CreateE2EMessage ''m5'' ''K'' ''evacuate'' None)])) = [''m5'', ''m5'']"
  by (simp add: node_run_def node_step_def node_eval)

text \<open>
  C2, amended. One call of \<^verbatim>\<open>tryDecryptMessage\<close> appends at most one DecryptedMessage
  to the decrypted log and changes no earlier entry; it appends none when it has no id or
  when one of the two envelopes of its id is missing from the logs. When both envelopes
  of the id are in the logs, of type e2e and addressed to admin, and the admin key opens
  them, the call appends exactly one DecryptedMessage of that id, whatever the log
  already holds: nothing suppresses a repeated join, \<open>n\<close> such calls append \<open>n\<close>,
  and one round of the key or message callbacks appends one for every registered
  E2EService callback. On every node, after any run of events from a clean start, the
  DecryptedMessages stored under a msg_id are at most as many as the callback invocations
  made with an envelope of that msg_id.
\<close>

theorem every_successful_join_is_stored:
  "length (decrypted (tryDecryptMessage C now mo ko s)) \<le> Suc (length (decrypted s))
   \<and> take (length (decrypted s)) (decrypted (tryDecryptMessage C now mo ko s)) = decrypted s
   \<and> (js_or (map_option msg_id mo) (map_option key_msg_id ko) = None \<longrightarrow>
        tryDecryptMessage C now mo ko s = s)
   \<and> (js_or (map_option msg_id mo) (map_option key_msg_id ko) = Some x
        \<and> (getMessageEnvelopeById s x = None \<or> getKeyEnvelopeById s x = None) \<longrightarrow>
        tryDecryptMessage C now mo ko s = s)
   \<and> joinsOf y (node_run C (freshNode self) evs) \<le> callsOf y (node_run C (freshNode self) evs)
   \<and> (getMessageEnvelopeById s x = Some sm \<and> getKeyEnvelopeById s x = Some sk
        \<and> msg_type sm = e2e \<and> key_to sk = ''admin''
        \<and> truthy (adminPrivateKey s) = Some priv
        \<and> unwrapSessionKey C (key_wrapped_key sk) priv = Some key
        \<and> decryptMessage C (msg_payload sm) key = Some content \<longrightarrow>
        (js_or (map_option msg_id mo) (map_option key_msg_id ko) = Some x \<longrightarrow>
           tryDecryptMessage C now mo ko s =
             s\<lparr>decrypted := decrypted s @
                 [\<lparr>dec_msg_id = x, dec_content = content, dec_image = None,
                   dec_timestamp = msg_timestamp sm, dec_from = msg_from sm,
                   dec_meta = msg_meta sm, dec_messagePath = msg_hops sm,
                   dec_keyPath = [\<lparr>hop_nodeId = key_from sk, hop_timestamp = now\<rparr>]\<rparr>]\<rparr>
           \<and> joinsOf x (((tryDecryptMessage C now mo ko) ^^ n) s) = joinsOf x s + n)
        \<and> (adminMode s \<and> x \<noteq> [] \<and> key_msg_id k = x \<longrightarrow>
             joinsOf x (fireKeyHandlers C now k s) =
               joinsOf x s + count_list (keyHandlers s) E2EListener)
        \<and> (adminMode s \<and> x \<noteq> [] \<and> msg_id m = x \<and> msg_type m = e2e \<longrightarrow>
             joinsOf x (fireMessageHandlers C now m s) =
               joinsOf x s + count_list (messageHandlers s) E2EListener))"
proof -
  obtain ds where ds: "tryDecryptMessage C now mo ko s = s\<lparr>decrypted := decrypted s @ ds\<rparr>"
      "length ds \<le> 1"
    using tryDecryptMessage_frame by blast
  have p1: "length (decrypted (tryDecryptMessage C now mo ko s)) \<le> Suc (length (decrypted s))"
    using ds(2) by (simp add: ds(1))
  have p2: "take (length (decrypted s)) (decrypted (tryDecryptMessage C now mo ko s)) = decrypted s"
    by (simp add: ds(1))
  have p3: "tryDecryptMessage C now mo ko s = s"
    if "js_or (map_option msg_id mo) (map_option key_msg_id ko) = None"
    using that by (simp add: tryDecryptMessage_def)
  have p4: "tryDecryptMessage C now mo ko s = s"
    if "js_or (map_option msg_id mo) (map_option key_msg_id ko) = Some x
        \<and> (getMessageEnvelopeById s x = None \<or> getKeyEnvelopeById s x = None)"
    using that by (auto simp: tryDecryptMessage_def split: option.splits)
  have "joinsOf y (freshNode self) \<le> callsOf y (freshNode self)"
    by (simp add: joinsOf_def callsOf_def freshNode_def)
  then have p5: "joinsOf y (node_run C (freshNode self) evs)
      \<le> callsOf y (node_run C (freshNode self) evs)"
    by (rule joins_le_calls_run)
  have p6: "(js_or (map_option msg_id mo) (map_option key_msg_id ko) = Some x \<longrightarrow>
           tryDecryptMessage C now mo ko s =
             s\<lparr>decrypted := decrypted s @
                 [\<lparr>dec_msg_id = x, dec_content = content, dec_image = None,
                   dec_timestamp = msg_timestamp sm, dec_from = msg_from sm,
                   dec_meta = msg_meta sm, dec_messagePath = msg_hops sm,
                   dec_keyPath = [\<lparr>hop_nodeId = key_from sk, hop_timestamp = now\<rparr>]\<rparr>]\<rparr>
           \<and> joinsOf x (((tryDecryptMessage C now mo ko) ^^ n) s) = joinsOf x s + n)
        \<and> (adminMode s \<and> x \<noteq> [] \<and> key_msg_id k = x \<longrightarrow>
             joinsOf x (fireKeyHandlers C now k s) =
               joinsOf x s + count_list (keyHandlers s) E2EListener)
        \<and> (adminMode s \<and> x \<noteq> [] \<and> msg_id m = x \<and> msg_type m = e2e \<longrightarrow>
             joinsOf x (fireMessageHandlers C now m s) =
               joinsOf x s + count_list (messageHandlers s) E2EListener)"
    if h: "getMessageEnvelopeById s x = Some sm \<and> getKeyEnvelopeById s x = Some sk
        \<and> msg_type sm = e2e \<and> key_to sk = ''admin''
        \<and> truthy (adminPrivateKey s) = Some priv
        \<and> unwrapSessionKey C (key_wrapped_key sk) priv = Some key
        \<and> decryptMessage C (msg_payload sm) key = Some content"
  proof (intro conjI impI)
    assume js: "js_or (map_option msg_id mo) (map_option key_msg_id ko) = Some x"
    show "tryDecryptMessage C now mo ko s =
             s\<lparr>decrypted := decrypted s @
                 [\<lparr>dec_msg_id = x, dec_content = content, dec_image = None,
                   dec_timestamp = msg_timestamp sm, dec_from = msg_from sm,
                   dec_meta = msg_meta sm, dec_messagePath = msg_hops sm,
                   dec_keyPath = [\<lparr>hop_nodeId = key_from sk, hop_timestamp = now\<rparr>]\<rparr>]\<rparr>"
      by (rule tryDecryptMessage_success [where key = key and priv = priv, OF js])
         (use h in simp_all)
    have "((tryDecryptMessage C now mo ko) ^^ n) s =
           s\<lparr>decrypted := decrypted s @ replicate n
              \<lparr>dec_msg_id = x, dec_content = content, dec_image = None,
                   dec_timestamp = msg_timestamp sm, dec_from = msg_from sm,
                   dec_meta = msg_meta sm, dec_messagePath = msg_hops sm,
                   dec_keyPath = [\<lparr>hop_nodeId = key_from sk, hop_timestamp = now\<rparr>]\<rparr>\<rparr>"
      by (rule tryDecryptMessage_repeated [where key = key and priv = priv, OF js])
         (use h in simp_all)
    then show "joinsOf x (((tryDecryptMessage C now mo ko) ^^ n) s) = joinsOf x s + n"
      by (simp add: joinsOf_def)
  next
    assume a: "adminMode s \<and> x \<noteq> [] \<and> key_msg_id k = x"
    have "runKeyHandlers C now k 0 (keyHandlers s) s =
           s\<lparr>keyCalls := keyCalls s @ map (\<lambda>j. (j, k)) [0..<0 + length (keyHandlers s)],
             decrypted := decrypted s @ replicate (count_list (keyHandlers s) E2EListener)
              \<lparr>dec_msg_id = x, dec_content = content, dec_image = None,
                   dec_timestamp = msg_timestamp sm, dec_from = msg_from sm,
                   dec_meta = msg_meta sm, dec_messagePath = msg_hops sm,
                   dec_keyPath = [\<lparr>hop_nodeId = key_from sk, hop_timestamp = now\<rparr>]\<rparr>\<rparr>"
      by (rule runKeyHandlers_success [where key = key and priv = priv])
         (use a h in simp_all)
    then show "joinsOf x (fireKeyHandlers C now k s) =
               joinsOf x s + count_list (keyHandlers s) E2EListener"
      by (simp add: fireKeyHandlers_def joinsOf_def)
  next
    assume a: "adminMode s \<and> x \<noteq> [] \<and> msg_id m = x \<and> msg_type m = e2e"
    have "runMessageHandlers C now m 0 (messageHandlers s) s =
           s\<lparr>messageCalls := messageCalls s @ map (\<lambda>j. (j, m)) [0..<0 + length (messageHandlers s)],
             decrypted := decrypted s @ replicate (count_list (messageHandlers s) E2EListener)
              \<lparr>dec_msg_id = x, dec_content = content, dec_image = None,
                   dec_timestamp = msg_timestamp sm, dec_from = msg_from sm,
                   dec_meta = msg_meta sm, dec_messagePath = msg_hops sm,
                   dec_keyPath = [\<lparr>hop_nodeId = key_from sk, hop_timestamp = now\<rparr>]\<rparr>\<rparr>"
      by (rule runMessageHandlers_success [where key = key and priv = priv])
         (use a h in simp_all)
    then show "joinsOf x (fireMessageHandlers C now m s) =
               joinsOf x s + count_list (messageHandlers s) E2EListener"
      by (simp add: fireMessageHandlers_def joinsOf_def)
  qed
  show ?thesis
    using p1 p2 p3 p4 p5 p6 by blast
qed

theorem every_successful_join_is_stored_witness:
  "joinsOf ''m4'' (saveKeyEnvelope k4 (saveMessageEnvelope m4 nodeZ)) = 0
   \<and> joinsOf ''m4'' (((tryDecryptMessage modelCrypto ''t3'' (Some m4) None) ^^ 3)
        (saveKeyEnvelope k4 (saveMessageEnvelope m4 nodeZ))) = 3
   \<and> joinsOf ''m4'' (fireKeyHandlers modelCrypto ''t3'' k4
        (saveKeyEnvelope k4 (saveMessageEnvelope m4 nodeZ))) = 1
   \<and> joinsOf ''m4'' (fireMessageHandlers modelCrypto ''t3'' m4
        (saveKeyEnvelope k4 (saveMessageEnvelope m4 nodeZ))) = 1
   \<and> joinsOf ''m4'' (fireKeyHandlers modelCrypto ''t5'' k4 (fireKeyHandlers modelCrypto ''t4'' k4
        (fireKeyHandlers modelCrypto ''t3'' k4
           (saveKeyEnvelope k4 (saveMessageEnvelope m4 nodeZ))))) = 3
   \<and> tryDecryptMessage modelCrypto ''t3'' (Some m4) None (saveMessageEnvelope m4 nodeZ)
       = saveMessageEnvelope m4 nodeZ"
proof -
  let ?s = "saveKeyEnvelope k4 (saveMessageEnvelope m4 nodeZ)"
  have h: "getMessageEnvelopeById ?s ''m4'' = Some m4 \<and> getKeyEnvelopeById ?s ''m4'' = Some k4
        \<and> msg_type m4 = e2e \<and> key_to k4 = ''admin''
        \<and> truthy (adminPrivateKey ?s) = Some ''A''
        \<and> unwrapSessionKey modelCrypto (key_wrapped_key k4) ''A'' = Some ''K''
        \<and> decryptMessage modelCrypto (msg_payload m4) ''K'' = Some ''evacuate''"
    by (simp add: node_eval nodeZ_def m4_def k4_def)
  have js: "js_or (map_option msg_id (Some m4)) (map_option key_msg_id None) = Some ''m4''"
    by (simp add: js_or_def truthy_def m4_def)
  have a: "adminMode ?s \<and> ''m4'' \<noteq> [] \<and> key_msg_id k4 = ''m4''"
      "adminMode ?s \<and> ''m4'' \<noteq> [] \<and> msg_id m4 = ''m4'' \<and> msg_type m4 = e2e"
      "count_list (keyHandlers ?s) E2EListener = 1"
      "count_list (messageHandlers ?s) E2EListener = 1"
      "joinsOf ''m4'' ?s = 0"
    by (simp_all add: joinsOf_def node_eval nodeZ_def m4_def k4_def)
  have miss: "js_or (map_option msg_id (Some m4)) (map_option key_msg_id None) = Some ''m4''
        \<and> (getMessageEnvelopeById (saveMessageEnvelope m4 nodeZ) ''m4'' = None
            \<or> getKeyEnvelopeById (saveMessageEnvelope m4 nodeZ) ''m4'' = None)"
    by (simp add: node_eval nodeZ_def m4_def)
  note w = every_successful_join_is_stored
      [where C = modelCrypto and now = "''t3''" and mo = "Some m4" and ko = None and s = ?s
         and x = "''m4''" and sm = m4 and sk = k4 and priv = "''A''" and key = "''K''"
         and content = "''evacuate''" and n = 3 and k = k4 and m = m4 and evs = "[]"]
  note w' = every_successful_join_is_stored
      [where C = modelCrypto and now = "''t3''" and mo = "Some m4" and ko = None
         and s = "saveMessageEnvelope m4 nodeZ" and x = "''m4''" and evs = "[]"]
  have r3: "joinsOf ''m4'' (((tryDecryptMessage modelCrypto ''t3'' (Some m4) None) ^^ 3) ?s) = 3"
    using w h js a(5) by simp
  have rk: "joinsOf ''m4'' (fireKeyHandlers modelCrypto ''t3'' k4 ?s) = 1"
    using w h a(1,3,5) by simp
  have rm: "joinsOf ''m4'' (fireMessageHandlers modelCrypto ''t3'' m4 ?s) = 1"
    using w h a(2,4,5) by simp
  have r0: "tryDecryptMessage modelCrypto ''t3'' (Some m4) None (saveMessageEnvelope m4 nodeZ)
       = saveMessageEnvelope m4 nodeZ"
    using w' miss by blast
  have rounds: "joinsOf ''m4'' (fireKeyHandlers modelCrypto ''t5'' k4
        (fireKeyHandlers modelCrypto ''t4'' k4 (fireKeyHandlers modelCrypto ''t3'' k4 ?s))) = 3"
    by (simp add: joinsOf_def node_eval nodeZ_def m4_def k4_def)
  show ?thesis using r3 rk rm r0 rounds a(5) by blast
qed

section \<open>Properties of the hub relay\<close>

lemma ws_send_fields [simp]:
  "hub_peers (ws_send w f h) = hub_peers h"
  "hub_open (ws_send w f h) = hub_open h"
  "hub_peerId (ws_send w f h) = hub_peerId h"
  "hub_timers (ws_send w f h) = hub_timers h"
  "hub_out (ws_send w f h) w' = (if w' = w then hub_out h w @ [f] else hub_out h w')"
  by (simp_all add: ws_send_def)

text \<open>
  A fan-out loop over a list of bindings writes one copy of the frame for each binding
  that passes the test and whose socket is open, and changes nothing else.
\<close>

lemma fanout_loop:
  "foldl (\<lambda>h' b. if P (fst b) \<and> hub_open h' (snd b) then ws_send (snd b) f h' else h') h ps =
     h\<lparr>hub_out := (\<lambda>w. hub_out h w @
          replicate (length (filter (\<lambda>b. snd b = w \<and> P (fst b) \<and> hub_open h w) ps)) f)\<rparr>"
proof (induction ps arbitrary: h)
  case Nil
  show ?case by simp
next
  case (Cons b ps)
  show ?case
  proof (cases "P (fst b) \<and> hub_open h (snd b)")
    case True
    have "foldl (\<lambda>h' b. if P (fst b) \<and> hub_open h' (snd b) then ws_send (snd b) f h' else h') h (b # ps)
        = foldl (\<lambda>h' b. if P (fst b) \<and> hub_open h' (snd b) then ws_send (snd b) f h' else h')
            (ws_send (snd b) f h) ps"
      using True by simp
    also have "\<dots> = (ws_send (snd b) f h)\<lparr>hub_out := (\<lambda>w. hub_out (ws_send (snd b) f h) w @
          replicate (length (filter (\<lambda>c. snd c = w \<and> P (fst c) \<and> hub_open (ws_send (snd b) f h) w) ps)) f)\<rparr>"
      by (rule Cons.IH)
    also have "\<dots> = h\<lparr>hub_out := (\<lambda>w. hub_out h w @
          replicate (length (filter (\<lambda>b. snd b = w \<and> P (fst b) \<and> hub_open h w) (b # ps))) f)\<rparr>"
      using True by (auto simp: ws_send_def fun_eq_iff replicate_app_Cons_same)
    finally show ?thesis .
  next
    case False
    have "foldl (\<lambda>h' b. if P (fst b) \<and> hub_open h' (snd b) then ws_send (snd b) f h' else h') h (b # ps)
        = foldl (\<lambda>h' b. if P (fst b) \<and> hub_open h' (snd b) then ws_send (snd b) f h' else h') h ps"
      using False by auto
    also have "\<dots> = h\<lparr>hub_out := (\<lambda>w. hub_out h w @
          replicate (length (filter (\<lambda>b. snd b = w \<and> P (fst b) \<and> hub_open h w) ps)) f)\<rparr>"
      by (rule Cons.IH)
    also have "\<dots> = h\<lparr>hub_out := (\<lambda>w. hub_out h w @
          replicate (length (filter (\<lambda>b. snd b = w \<and> P (fst b) \<and> hub_open h w) (b # ps))) f)\<rparr>"
      using False by (auto simp: fun_eq_iff)
    finally show ?thesis .
  qed
qed

lemma broadcastToOthers_eq:
  "broadcastToOthers x f h =
     h\<lparr>hub_out := (\<lambda>w. hub_out h w @
          replicate (length (filter (\<lambda>b. snd b = w \<and> fst b \<noteq> x \<and> hub_open h w) (hub_peers h))) f)\<rparr>"
  using fanout_loop [of "\<lambda>q. q \<noteq> x" f h "hub_peers h"]
  by (simp add: broadcastToOthers_def case_prod_unfold)

lemma sendToAllPeers_eq:
  "sendToAllPeers f h =
     h\<lparr>hub_out := (\<lambda>w. hub_out h w @
          replicate (length (filter (\<lambda>b. snd b = w \<and> hub_open h w) (hub_peers h))) f)\<rparr>"
  using fanout_loop [of "\<lambda>q. True" f h "hub_peers h"]
  by (simp add: sendToAllPeers_def case_prod_unfold)

lemma on_message_register_eq:
  "on_message ws (register p) h =
     ws_send ws (hub_peer_list (filter (\<lambda>id. id \<noteq> p) (map fst (AList.update p ws (hub_peers h)))))
       (broadcastToOthers p (hub_peer_connected p)
          (h\<lparr>hub_peerId := (hub_peerId h)(ws := Some p),
             hub_peers := AList.update p ws (hub_peers h)\<rparr>))"
  by (simp add: on_message_def Let_def broadcastToOthers_eq)

lemma on_message_register_fields:
  "hub_peers (on_message ws (register p) h) = AList.update p ws (hub_peers h)"
  "hub_open (on_message ws (register p) h) = hub_open h"
  "hub_peerId (on_message ws (register p) h) = (hub_peerId h)(ws := Some p)"
  by (simp_all add: on_message_register_eq broadcastToOthers_eq)

lemma hub_step_distinct:
  "distinct (map fst (hub_peers h)) \<Longrightarrow> distinct (map fst (hub_peers (hub_step h ev)))"
proof (cases ev)
  case (Connection ws)
  assume "distinct (map fst (hub_peers h))"
  then show ?thesis using Connection by (simp add: hub_step_def on_connection_def)
next
  case (Message ws frame)
  assume d: "distinct (map fst (hub_peers h))"
  show ?thesis
  proof (cases frame)
    case (register p)
    then show ?thesis using d Message
      by (simp add: hub_step_def on_message_register_fields distinct_update)
  next
    case (peer_mesh_message e t)
    then show ?thesis using d Message
      by (simp add: hub_step_def on_message_def broadcastToOthers_eq split: option.splits)
  next
    case unknown_frame
    then show ?thesis using d Message by (simp add: hub_step_def on_message_def)
  qed
next
  case (Close ws)
  assume "distinct (map fst (hub_peers h))"
  then show ?thesis using Close
    by (simp add: hub_step_def on_close_def Let_def broadcastToOthers_eq distinct_delete
        split: option.splits)
qed

lemma hub_run_distinct: "distinct (map fst (hub_peers (hub_run evs)))"
proof -
  have "distinct (map fst (hub_peers h)) \<Longrightarrow> distinct (map fst (hub_peers (foldl hub_step h evs)))" for h :: "'a Hub"
    by (induction evs arbitrary: h) (simp_all add: hub_step_distinct)
  then show ?thesis by (simp add: hub_run_def emptyHub_def)
qed

lemmas hub_eval =
  hub_run_def hub_step_def on_connection_def on_message_def on_close_def
  broadcastToOthers_def sendToAllPeers_def ws_send_def emptyHub_def truthy_def registered_def
  Let_def

text \<open>
  C5, as stated, fails: a register frame closes nobody and is never rejected. After
  sessions 1 and 2 both register as A, session 1 is still open and still holds A while the
  map binds A to session 2; and session 1 may register as A and then as B, after which the
  map binds both ids to it.
\<close>

theorem register_leaves_old_session_open_counterexample:
  "hub_open (hub_run [Connection 1, Message 1 (register ''A''),
                      Connection 2, Message 2 (register ''A'')] :: string Hub) 1
   \<and> hub_peerId (hub_run [Connection 1, Message 1 (register ''A''),
                      Connection 2, Message 2 (register ''A'')] :: string Hub) 1 = Some ''A''
   \<and> hub_open (hub_run [Connection 1, Message 1 (register ''A''),
                      Connection 2, Message 2 (register ''A'')] :: string Hub) 2
   \<and> hub_peerId (hub_run [Connection 1, Message 1 (register ''A''),
                      Connection 2, Message 2 (register ''A'')] :: string Hub) 2 = Some ''A''
   \<and> hub_peers (hub_run [Connection 1, Message 1 (register ''A''),
                      Connection 2, Message 2 (register ''A'')] :: string Hub) = [(''A'', 2)]
   \<and> hub_peers (hub_run [Connection 1, Message 1 (register ''A''),
                      Message 1 (register ''B'')] :: string Hub) = [(''A'', 1), (''B'', 1)]
   \<and> hub_peerId (hub_run [Connection 1, Message 1 (register ''A''),
                      Message 1 (register ''B'')] :: string Hub) 1 = Some ''B''"
  by (simp add: hub_eval)

text \<open>
  C5, amended. The peers map binds a peerId to at most one session. A register frame
  binds its peerId to the registering session and replaces whatever session the id was
  bound to (last write wins); it closes no session, the session bound before stays open
  and keeps holding the id, and a register from a session that already holds a peerId is
  accepted: the session takes the new id. In every run of the hub the keys of the map are
  distinct.
\<close>

theorem register_rebinds_without_closing:
  "map_of (hub_peers (on_message ws (register p) h)) = (map_of (hub_peers h))(p \<mapsto> ws)
   \<and> hub_open (on_message ws (register p) h) = hub_open h
   \<and> hub_peerId (on_message ws (register p) h) = (hub_peerId h)(ws := Some p)
   \<and> (distinct (map fst (hub_peers h)) \<longrightarrow>
        distinct (map fst (hub_peers (on_message ws (register p) h))))
   \<and> distinct (map fst (hub_peers (hub_run evs)))"
  by (simp add: on_message_register_fields update_conv' distinct_update hub_run_distinct)

theorem register_rebinds_without_closing_witness:
  "distinct (map fst (hub_peers (hub_run [Connection 1, Message 1 (register ''A''), Connection 2]
        :: string Hub)))
   \<and> map_of (hub_peers (on_message 2 (register ''A'')
        (hub_run [Connection 1, Message 1 (register ''A''), Connection 2] :: string Hub))) ''A'' = Some 2
   \<and> hub_open (on_message 2 (register ''A'')
        (hub_run [Connection 1, Message 1 (register ''A''), Connection 2] :: string Hub)) 1
   \<and> hub_peerId (on_message 2 (register ''A'')
        (hub_run [Connection 1, Message 1 (register ''A''), Connection 2] :: string Hub)) 1 = Some ''A''
   \<and> distinct (map fst (hub_peers (on_message 2 (register ''A'')
        (hub_run [Connection 1, Message 1 (register ''A''), Connection 2] :: string Hub))))"
proof -
  let ?h = "hub_run [Connection 1, Message 1 (register ''A''), Connection 2] :: string Hub"
  have a: "distinct (map fst (hub_peers ?h))" "hub_open ?h 1" "hub_peerId ?h 1 = Some ''A''"
    by (simp_all add: hub_eval)
  note r = register_rebinds_without_closing [of 2 "''A''" ?h "[]"]
  have "map_of (hub_peers (on_message 2 (register ''A'') ?h)) ''A'' = Some 2"
    using r [THEN conjunct1] by simp
  moreover have "hub_open (on_message 2 (register ''A'') ?h) 1"
    using a(2) r [THEN conjunct2, THEN conjunct1] by simp
  moreover have "hub_peerId (on_message 2 (register ''A'') ?h) 1 = Some ''A''"
    using a(3) r [THEN conjunct2, THEN conjunct2, THEN conjunct1] by simp
  moreover have "distinct (map fst (hub_peers (on_message 2 (register ''A'') ?h)))"
    using a(1) r [THEN conjunct2, THEN conjunct2, THEN conjunct2, THEN conjunct1] by blast
  ultimately show ?thesis using a(1) by blast
qed

subsection \<open>Fan-out of a mesh message\<close>

lemma count_binding:
  assumes d: "distinct (map fst ps)"
      and wf: "\<forall>b \<in> set ps. pid (snd b) = Some (fst b)"
      and sender: "(p, ws) \<in> set ps"
  shows "length (filter (\<lambda>b. snd b = w \<and> fst b \<noteq> p \<and> opn w) ps) =
           (if w \<noteq> ws \<and> opn w \<and> w \<in> snd ` set ps then 1 else 0)"
proof -
  have held: "pid (snd b) = Some (fst b)" if "b \<in> set ps" for b
    using wf that by blast
  have pws: "pid ws = Some p"
    using held [OF sender] by simp
  show ?thesis
  proof (cases "w \<noteq> ws \<and> opn w \<and> w \<in> snd ` set ps")
    case False
    have "\<not> (snd b = w \<and> fst b \<noteq> p \<and> opn w)" if "b \<in> set ps" for b
    proof
      assume a: "snd b = w \<and> fst b \<noteq> p \<and> opn w"
      have "w \<in> snd ` set ps" using that a by (metis imageI)
      with False a have "w = ws" by blast
      with held [OF that] a pws show False by simp
    qed
    then have "filter (\<lambda>b. snd b = w \<and> fst b \<noteq> p \<and> opn w) ps = []"
      unfolding filter_empty_conv by blast
    then show ?thesis using False by simp
  next
    case True
    then have "w \<in> snd ` set ps" by blast
    then obtain b0 where b0: "b0 \<in> set ps" "snd b0 = w" by (metis imageE)
    define q where "q = fst b0"
    have "b0 = (q, w)" using b0(2) by (cases b0) (simp add: q_def)
    then have q: "(q, w) \<in> set ps" using b0(1) by simp
    have pw: "pid w = Some q" using held [OF q] by simp
    have same: "b = (q, w)" if "b \<in> set ps" "snd b = w" for b
    proof -
      have "pid w = Some (fst b)" using held [OF that(1)] that(2) by simp
      then have "fst b = q" using pw by simp
      then show ?thesis using that(2) by (cases b) simp
    qed
    have "q \<noteq> p"
    proof
      assume "q = p"
      then have "(p, w) \<in> set ps" using q by simp
      then have "w = ws" using sender by (rule eq_key_imp_eq_value [OF d])
      then show False using True by simp
    qed
    have "{b. snd b = w \<and> fst b \<noteq> p \<and> opn w} \<inter> set ps = {(q, w)}"
    proof (rule set_eqI)
      fix b
      show "b \<in> {b. snd b = w \<and> fst b \<noteq> p \<and> opn w} \<inter> set ps \<longleftrightarrow> b \<in> {(q, w)}"
      proof
        assume "b \<in> {b. snd b = w \<and> fst b \<noteq> p \<and> opn w} \<inter> set ps"
        then have "b \<in> set ps" "snd b = w" by simp_all
        then show "b \<in> {(q, w)}" using same by simp
      next
        assume "b \<in> {(q, w)}"
        then have "b = (q, w)" by simp
        then show "b \<in> {b. snd b = w \<and> fst b \<noteq> p \<and> opn w} \<inter> set ps"
          using q \<open>q \<noteq> p\<close> True by simp
      qed
    qed
    moreover have "distinct ps" using d by (simp add: distinct_map)
    ultimately have "length (filter (\<lambda>b. snd b = w \<and> fst b \<noteq> p \<and> opn w) ps) = 1"
      by (simp add: distinct_length_filter)
    then show ?thesis using True by simp
  qed
qed

text \<open>
  C8, as stated, fails on hub states that a second register reaches. Sessions 1 and 2
  register as A and session 3 as B; a mesh message from session 3 reaches session 2 only,
  although session 1 is open and registered. And when session 1 registers as A and then
  as B, its own mesh message is written back to it.
\<close>

theorem displaced_session_misses_fanout_counterexample:
  "registered (hub_run [Connection 1, Message 1 (register ''A''),
                        Connection 2, Message 2 (register ''A''),
                        Connection 3, Message 3 (register ''B''),
                        Message 3 (peer_mesh_message (Some ''env'') None)] :: string Hub) 1
   \<and> hub_out (hub_run [Connection 1, Message 1 (register ''A''),
                        Connection 2, Message 2 (register ''A''),
                        Connection 3, Message 3 (register ''B''),
                        Message 3 (peer_mesh_message (Some ''env'') None)] :: string Hub) 1
       = [hub_peer_list []]
   \<and> hub_out (hub_run [Connection 1, Message 1 (register ''A''),
                        Connection 2, Message 2 (register ''A''),
                        Connection 3, Message 3 (register ''B''),
                        Message 3 (peer_mesh_message (Some ''env'') None)] :: string Hub) 2
       = [hub_peer_list [], hub_peer_connected ''B'', hub_mesh_message ''env'' ''B'' None]
   \<and> hub_out (hub_run [Connection 1, Message 1 (register ''A''),
                        Message 1 (register ''B''),
                        Message 1 (peer_mesh_message (Some ''env'') None)] :: string Hub) 1
       = [hub_peer_list [], hub_peer_connected ''B'', hub_peer_list [''A''],
          hub_mesh_message ''env'' ''B'' None]"
  by (simp add: hub_eval)

text \<open>
  C8, amended. A mesh message with an envelope, from a session that holds a non-empty
  peerId, is written once for every binding of the peers map whose peerId differs from
  the sender's and whose session is open, as
  \<^verbatim>\<open>{type: "mesh_message", envelope, fromPeer, envelopeType}\<close> with the envelope and
  the envelopeType as received; nothing else changes. When every bound session is bound
  under the peerId it holds and the sender is bound, that is one frame to every other
  open bound session and none to the sender. A frame without an envelope, or from a
  session that holds no peerId (or the empty one), is dropped.
\<close>

theorem mesh_message_fanout_by_binding:
  "on_message ws (peer_mesh_message None t) h = h
   \<and> (truthy (hub_peerId h ws) = None \<longrightarrow>
        on_message ws (peer_mesh_message (Some e) t) h = h)
   \<and> (truthy (hub_peerId h ws) = Some p \<longrightarrow>
        on_message ws (peer_mesh_message (Some e) t) h =
          h\<lparr>hub_out := (\<lambda>w. hub_out h w @
               replicate (length (filter (\<lambda>b. snd b = w \<and> fst b \<noteq> p \<and> hub_open h w)
                                         (hub_peers h)))
                         (hub_mesh_message e p t))\<rparr>
        \<and> (distinct (map fst (hub_peers h))
             \<and> (\<forall>b \<in> set (hub_peers h). hub_peerId h (snd b) = Some (fst b))
             \<and> (p, ws) \<in> set (hub_peers h) \<longrightarrow>
            (\<forall>w. hub_out (on_message ws (peer_mesh_message (Some e) t) h) w =
                   hub_out h w @
                   (if w \<noteq> ws \<and> hub_open h w \<and> w \<in> snd ` set (hub_peers h)
                    then [hub_mesh_message e p t] else []))))"
proof -
  have a: "on_message ws (peer_mesh_message None t) h = h"
    by (simp add: on_message_def)
  have b: "truthy (hub_peerId h ws) = None \<longrightarrow> on_message ws (peer_mesh_message (Some e) t) h = h"
    by (simp add: on_message_def)
  have c: "on_message ws (peer_mesh_message (Some e) t) h =
          h\<lparr>hub_out := (\<lambda>w. hub_out h w @
               replicate (length (filter (\<lambda>b. snd b = w \<and> fst b \<noteq> p \<and> hub_open h w)
                                         (hub_peers h)))
                         (hub_mesh_message e p t))\<rparr>"
    if "truthy (hub_peerId h ws) = Some p"
    using that by (simp add: on_message_def broadcastToOthers_eq)
  have d: "hub_out (on_message ws (peer_mesh_message (Some e) t) h) w =
                   hub_out h w @
                   (if w \<noteq> ws \<and> hub_open h w \<and> w \<in> snd ` set (hub_peers h)
                    then [hub_mesh_message e p t] else [])"
    if "truthy (hub_peerId h ws) = Some p" "distinct (map fst (hub_peers h))"
       "\<forall>b \<in> set (hub_peers h). hub_peerId h (snd b) = Some (fst b)"
       "(p, ws) \<in> set (hub_peers h)" for w
    using count_binding [OF that(2) that(3) that(4), of w "hub_open h"]
    by (simp add: c [OF that(1)])
  show ?thesis using a b c d by blast
qed

theorem mesh_message_fanout_by_binding_witness:
  "hub_out (on_message 1 (peer_mesh_message (Some ''env'') None)
      (hub_run [Connection 1, Message 1 (register ''A''), Connection 2, Message 2 (register ''B''),
                Connection 3, Message 3 (register ''C''), Close 3])) 2
     = [hub_peer_list [''A''], hub_peer_connected ''C'', hub_peer_disconnected ''C'',
        hub_mesh_message ''env'' ''A'' None]
   \<and> hub_out (on_message 1 (peer_mesh_message (Some ''env'') None)
      (hub_run [Connection 1, Message 1 (register ''A''), Connection 2, Message 2 (register ''B''),
                Connection 3, Message 3 (register ''C''), Close 3])) 1
     = [hub_peer_list [], hub_peer_connected ''B'', hub_peer_connected ''C'',
        hub_peer_disconnected ''C'']
   \<and> hub_out (on_message 1 (peer_mesh_message (Some ''env'') None)
      (hub_run [Connection 1, Message 1 (register ''A''), Connection 2, Message 2 (register ''B''),
                Connection 3, Message 3 (register ''C''), Close 3])) 3
     = [hub_peer_list [''A'', ''B'']]"
proof -
  let ?h = "hub_run [Connection 1, Message 1 (register ''A''), Connection 2, Message 2 (register ''B''),
                Connection 3, Message 3 (register ''C''), Close 3] :: string Hub"
  have hyp: "truthy (hub_peerId ?h 1) = Some ''A''" "distinct (map fst (hub_peers ?h))"
      "\<forall>b \<in> set (hub_peers ?h). hub_peerId ?h (snd b) = Some (fst b)"
      "(''A'', 1) \<in> set (hub_peers ?h)"
    by (simp_all add: hub_eval)
  have st: "hub_peers ?h = [(''A'', 1), (''B'', 2)]" "hub_open ?h 2" "\<not> hub_open ?h 3"
      "hub_out ?h 1 = [hub_peer_list [], hub_peer_connected ''B'', hub_peer_connected ''C'',
        hub_peer_disconnected ''C'']"
      "hub_out ?h 2 = [hub_peer_list [''A''], hub_peer_connected ''C'', hub_peer_disconnected ''C'']"
      "hub_out ?h 3 = [hub_peer_list [''A'', ''B'']]"
    by (simp_all add: hub_eval)
  from mesh_message_fanout_by_binding [of 1 None ?h "''env''" "''A''"] hyp
  have "\<forall>w. hub_out (on_message 1 (peer_mesh_message (Some ''env'') None) ?h) w =
                   hub_out ?h w @
                   (if w \<noteq> 1 \<and> hub_open ?h w \<and> w \<in> snd ` set (hub_peers ?h)
                    then [hub_mesh_message ''env'' ''A'' None] else [])"
    by blast
  then show ?thesis using st by simp
qed

subsection \<open>Gateway\<close>

lemma truthy_None_iff: "truthy v = None \<longleftrightarrow> v = None \<or> v = Some []"
  by (auto simp: truthy_def split: option.splits)

lemma truthy_Some_iff: "truthy v = Some x \<longleftrightarrow> v = Some x \<and> x \<noteq> []"
  by (auto simp: truthy_def split: option.splits)

text \<open>
  C9, as stated, fails on a field that is present but empty: the handler tests
  truthiness, so an empty \<^verbatim>\<open>encryptedPayload\<close> is answered with 400 although no field
  is missing.
\<close>

theorem empty_payload_rejected_counterexample:
  "gw_encryptedPayload (gatewayBody\<lparr>gw_encryptedPayload := Some ''''\<rparr>) \<noteq> None
   \<and> gw_wrappedKey (gatewayBody\<lparr>gw_encryptedPayload := Some ''''\<rparr>) \<noteq> None
   \<and> gw_msgId (gatewayBody\<lparr>gw_encryptedPayload := Some ''''\<rparr>) \<noteq> None
   \<and> gateway_submit ''t0'' (gatewayBody\<lparr>gw_encryptedPayload := Some ''''\<rparr>) twoPeerHub =
       (Response 400 (error_body ''Missing required fields''), twoPeerHub)"
  by (simp add: gatewayBody_def gateway_submit_def truthy_def)

text \<open>
  C9, amended. \<^verbatim>\<open>POST /gateway/submit\<close> answers 400 with an error body, and leaves
  the hub as it was, whenever one of encryptedPayload, wrappedKey and msgId is missing or
  empty. Otherwise it answers 200 with \<^verbatim>\<open>{success: true, msgId}\<close>, writes to every open
  bound peer a mesh message from "gateway" carrying a MessageEnvelope of type e2e, from
  the submitted from or "gateway_user", to "admin", ttl 8, one hop "gateway", the
  submitted payload and msgId, and leaves a timer of 100 ms whose firing writes the
  KeyEnvelope of the same msgId, marked as key, to the same peers.
\<close>

theorem gateway_submit_contract:
  "((gw_encryptedPayload body = None \<or> gw_encryptedPayload body = Some []
      \<or> gw_wrappedKey body = None \<or> gw_wrappedKey body = Some []
      \<or> gw_msgId body = None \<or> gw_msgId body = Some [])
     \<longrightarrow> gateway_submit now body h = (Response 400 (error_body ''Missing required fields''), h))
   \<and> (gw_encryptedPayload body = Some p \<and> p \<noteq> [] \<and> gw_wrappedKey body = Some k \<and> k \<noteq> []
        \<and> gw_msgId body = Some m \<and> m \<noteq> []
     \<longrightarrow> fst (gateway_submit now body h) = Response 200 (success_body m)
         \<and> hub_peers (snd (gateway_submit now body h)) = hub_peers h
         \<and> (\<forall>w. hub_out (snd (gateway_submit now body h)) w =
                hub_out h w @
                replicate (length (filter (\<lambda>b. snd b = w \<and> hub_open h w) (hub_peers h)))
                  (hub_mesh_message (MessageEnv (gatewayMessageEnvelope now body m p))
                     ''gateway'' None))
         \<and> hub_timers (snd (gateway_submit now body h)) =
             hub_timers h @
               [(100, hub_mesh_message (KeyEnv (gatewayKeyEnvelope body m k)) ''gateway''
                        (Some ''key''))]
         \<and> (hub_timers h = [] \<longrightarrow>
              (\<forall>w. hub_out (gateway_timer (snd (gateway_submit now body h))) w =
                 hub_out (snd (gateway_submit now body h)) w @
                 replicate (length (filter (\<lambda>b. snd b = w \<and> hub_open h w) (hub_peers h)))
                   (hub_mesh_message (KeyEnv (gatewayKeyEnvelope body m k)) ''gateway''
                      (Some ''key''))))
         \<and> msg_id (gatewayMessageEnvelope now body m p) = m
         \<and> msg_type (gatewayMessageEnvelope now body m p) = e2e
         \<and> msg_from (gatewayMessageEnvelope now body m p) =
             (if gw_from body = None \<or> gw_from body = Some [] then ''gateway_user''
              else the (gw_from body))
         \<and> msg_to (gatewayMessageEnvelope now body m p) = ''admin''
         \<and> msg_ttl (gatewayMessageEnvelope now body m p) = Num 8
         \<and> msg_hops (gatewayMessageEnvelope now body m p) =
             [\<lparr>hop_nodeId = ''gateway'', hop_timestamp = now\<rparr>]
         \<and> msg_payload (gatewayMessageEnvelope now body m p) = p
         \<and> key_msg_id (gatewayKeyEnvelope body m k) = m
         \<and> key_from (gatewayKeyEnvelope body m k) = msg_from (gatewayMessageEnvelope now body m p)
         \<and> key_to (gatewayKeyEnvelope body m k) = ''admin''
         \<and> key_wrapped_key (gatewayKeyEnvelope body m k) = k)"
proof -
  have bad: "gateway_submit now body h = (Response 400 (error_body ''Missing required fields''), h)"
    if "truthy (gw_encryptedPayload body) = None \<or> truthy (gw_wrappedKey body) = None
        \<or> truthy (gw_msgId body) = None"
    using that by (auto simp: gateway_submit_def split: option.splits)
  have good: "gateway_submit now body h =
      (Response 200 (success_body m),
       (sendToAllPeers (hub_mesh_message (MessageEnv (gatewayMessageEnvelope now body m p))
                          ''gateway'' None) h)
         \<lparr>hub_timers := hub_timers h @
            [(100, hub_mesh_message (KeyEnv (gatewayKeyEnvelope body m k)) ''gateway''
                     (Some ''key''))]\<rparr>)"
    if "truthy (gw_encryptedPayload body) = Some p" "truthy (gw_wrappedKey body) = Some k"
       "truthy (gw_msgId body) = Some m"
    using that by (simp add: gateway_submit_def Let_def sendToAllPeers_eq)
  have fields: "msg_id (gatewayMessageEnvelope now body m p) = m
         \<and> msg_type (gatewayMessageEnvelope now body m p) = e2e
         \<and> msg_from (gatewayMessageEnvelope now body m p) =
             (if gw_from body = None \<or> gw_from body = Some [] then ''gateway_user''
              else the (gw_from body))
         \<and> msg_to (gatewayMessageEnvelope now body m p) = ''admin''
         \<and> msg_ttl (gatewayMessageEnvelope now body m p) = Num 8
         \<and> msg_hops (gatewayMessageEnvelope now body m p) =
             [\<lparr>hop_nodeId = ''gateway'', hop_timestamp = now\<rparr>]
         \<and> msg_payload (gatewayMessageEnvelope now body m p) = p
         \<and> key_msg_id (gatewayKeyEnvelope body m k) = m
         \<and> key_from (gatewayKeyEnvelope body m k) = msg_from (gatewayMessageEnvelope now body m p)
         \<and> key_to (gatewayKeyEnvelope body m k) = ''admin''
         \<and> key_wrapped_key (gatewayKeyEnvelope body m k) = k"
    by (auto simp: gatewayMessageEnvelope_def gatewayKeyEnvelope_def truthy_def
        split: option.splits)
  show ?thesis
  proof (rule conjI; rule impI)
    assume "gw_encryptedPayload body = None \<or> gw_encryptedPayload body = Some []
      \<or> gw_wrappedKey body = None \<or> gw_wrappedKey body = Some []
      \<or> gw_msgId body = None \<or> gw_msgId body = Some []"
    then show "gateway_submit now body h = (Response 400 (error_body ''Missing required fields''), h)"
      by (intro bad) (auto simp: truthy_None_iff)
  next
    assume a: "gw_encryptedPayload body = Some p \<and> p \<noteq> [] \<and> gw_wrappedKey body = Some k \<and> k \<noteq> []
        \<and> gw_msgId body = Some m \<and> m \<noteq> []"
    then have g: "gateway_submit now body h =
      (Response 200 (success_body m),
       (sendToAllPeers (hub_mesh_message (MessageEnv (gatewayMessageEnvelope now body m p))
                          ''gateway'' None) h)
         \<lparr>hub_timers := hub_timers h @
            [(100, hub_mesh_message (KeyEnv (gatewayKeyEnvelope body m k)) ''gateway''
                     (Some ''key''))]\<rparr>)"
      by (intro good) (simp_all add: truthy_Some_iff)
    show "fst (gateway_submit now body h) = Response 200 (success_body m)
         \<and> hub_peers (snd (gateway_submit now body h)) = hub_peers h
         \<and> (\<forall>w. hub_out (snd (gateway_submit now body h)) w =
                hub_out h w @
                replicate (length (filter (\<lambda>b. snd b = w \<and> hub_open h w) (hub_peers h)))
                  (hub_mesh_message (MessageEnv (gatewayMessageEnvelope now body m p))
                     ''gateway'' None))
         \<and> hub_timers (snd (gateway_submit now body h)) =
             hub_timers h @
               [(100, hub_mesh_message (KeyEnv (gatewayKeyEnvelope body m k)) ''gateway''
                        (Some ''key''))]
         \<and> (hub_timers h = [] \<longrightarrow>
              (\<forall>w. hub_out (gateway_timer (snd (gateway_submit now body h))) w =
                 hub_out (snd (gateway_submit now body h)) w @
                 replicate (length (filter (\<lambda>b. snd b = w \<and> hub_open h w) (hub_peers h)))
                   (hub_mesh_message (KeyEnv (gatewayKeyEnvelope body m k)) ''gateway''
                      (Some ''key''))))
         \<and> msg_id (gatewayMessageEnvelope now body m p) = m
         \<and> msg_type (gatewayMessageEnvelope now body m p) = e2e
         \<and> msg_from (gatewayMessageEnvelope now body m p) =
             (if gw_from body = None \<or> gw_from body = Some [] then ''gateway_user''
              else the (gw_from body))
         \<and> msg_to (gatewayMessageEnvelope now body m p) = ''admin''
         \<and> msg_ttl (gatewayMessageEnvelope now body m p) = Num 8
         \<and> msg_hops (gatewayMessageEnvelope now body m p) =
             [\<lparr>hop_nodeId = ''gateway'', hop_timestamp = now\<rparr>]
         \<and> msg_payload (gatewayMessageEnvelope now body m p) = p
         \<and> key_msg_id (gatewayKeyEnvelope body m k) = m
         \<and> key_from (gatewayKeyEnvelope body m k) = msg_from (gatewayMessageEnvelope now body m p)
         \<and> key_to (gatewayKeyEnvelope body m k) = ''admin''
         \<and> key_wrapped_key (gatewayKeyEnvelope body m k) = k"
      using fields by (simp add: g sendToAllPeers_eq gateway_timer_def)
  qed
qed

theorem gateway_submit_contract_witness:
  "fst (gateway_submit ''t0'' gatewayBody twoPeerHub) = Response 200 (success_body ''m6'')
   \<and> hub_out (snd (gateway_submit ''t0'' gatewayBody twoPeerHub)) 2 =
       [hub_peer_list [''A''],
        hub_mesh_message (MessageEnv (gatewayMessageEnvelope ''t0'' gatewayBody ''m6'' ''Kevacuate''))
          ''gateway'' None]
   \<and> hub_out (gateway_timer (snd (gateway_submit ''t0'' gatewayBody twoPeerHub))) 2 =
       [hub_peer_list [''A''],
        hub_mesh_message (MessageEnv (gatewayMessageEnvelope ''t0'' gatewayBody ''m6'' ''Kevacuate''))
          ''gateway'' None,
        hub_mesh_message (KeyEnv (gatewayKeyEnvelope gatewayBody ''m6'' ''AK'')) ''gateway''
          (Some ''key'')]
   \<and> msg_from (gatewayMessageEnvelope ''t0'' gatewayBody ''m6'' ''Kevacuate'') = ''gateway_user''
   \<and> gateway_submit ''t0'' (gatewayBody\<lparr>gw_msgId := None\<rparr>) twoPeerHub =
       (Response 400 (error_body ''Missing required fields''), twoPeerHub)"
proof -
  have hyp: "gw_encryptedPayload gatewayBody = Some ''Kevacuate'' \<and> ''Kevacuate'' \<noteq> []
       \<and> gw_wrappedKey gatewayBody = Some ''AK'' \<and> ''AK'' \<noteq> []
       \<and> gw_msgId gatewayBody = Some ''m6'' \<and> ''m6'' \<noteq> []"
    by (simp add: gatewayBody_def)
  have st: "hub_timers twoPeerHub = []" "hub_peers twoPeerHub = [(''A'', 1), (''B'', 2)]"
      "hub_open twoPeerHub 2" "hub_out twoPeerHub 2 = [hub_peer_list [''A'']]"
      "gw_from gatewayBody = None"
    by (simp_all add: twoPeerHub_def gatewayBody_def hub_eval)
  note ok = gateway_submit_contract
      [where body = gatewayBody and p = "''Kevacuate''" and k = "''AK''" and m = "''m6''"
         and now = "''t0''" and h = twoPeerHub,
       THEN conjunct2, rule_format, OF hyp]
  have bad: "gateway_submit ''t0'' (gatewayBody\<lparr>gw_msgId := None\<rparr>) twoPeerHub =
       (Response 400 (error_body ''Missing required fields''), twoPeerHub)"
    by (rule gateway_submit_contract
      [where body = "gatewayBody\<lparr>gw_msgId := None\<rparr>" and now = "''t0''" and h = twoPeerHub,
       THEN conjunct1, rule_format]) simp
  show ?thesis using ok st bad by simp
qed

end
